theory Spec2Isabelle
  imports Main "HOL-Library.Monad_Syntax" "HOL-Library.Sublist"
begin

section \<open>Python values as the validator sees them\<close>

text \<open>
  The validator of \<^verbatim>\<open>tools/validate_profile_json.py\<close> receives whatever
  \<^verbatim>\<open>json.loads\<close> returns. A Python \<^verbatim>\<open>str\<close> is a sequence of Unicode code points, so
  a string is a list of code points here; \<open>lit\<close> turns an ASCII literal of the source into
  such a list. A \<^verbatim>\<open>dict\<close> is an association list read with \<open>map_of\<close>: the first
  binding of a key is the value the dict holds for it.
\<close>

type_synonym pystr = "nat list"

definition lit :: "string \<Rightarrow> pystr" where
  "lit cs = map of_char cs"

datatype pyfloat = Finite int int | Infinity bool | NaN

datatype pyval =
    PNone
  | PBool bool
  | PInt int
  | PFloat pyfloat
  | is_str: PStr pystr
  | is_list: PList "pyval list"
  | is_dict: PDict "(pystr \<times> pyval) list"

text \<open>
  Every operation the source applies to a value is modelled with the failure Python
  would raise on a value of the wrong type: \<open>None\<close> stands for an exception
  (\<^verbatim>\<open>AttributeError\<close>, \<^verbatim>\<open>TypeError\<close> or \<^verbatim>\<open>KeyError\<close>) that leaves \<^verbatim>\<open>validate\<close>.
\<close>

text \<open>\<^verbatim>\<open>x.get(k)\<close>: only a dict has the method; a missing key gives Python's \<^verbatim>\<open>None\<close>.\<close>

fun py_get :: "pyval \<Rightarrow> pystr \<Rightarrow> pyval option" where
  "py_get (PDict d) k = Some (case map_of d k of None \<Rightarrow> PNone | Some v \<Rightarrow> v)"
| "py_get _ k = None"

text \<open>\<^verbatim>\<open>x[k]\<close> with a string key: \<^verbatim>\<open>KeyError\<close> on a missing key, \<^verbatim>\<open>TypeError\<close> elsewhere.\<close>

fun py_getitem :: "pyval \<Rightarrow> pystr \<Rightarrow> pyval option" where
  "py_getitem (PDict d) k = map_of d k"
| "py_getitem _ k = None"

text \<open>\<^verbatim>\<open>k in x\<close> for a string \<open>k\<close>: key of a dict, substring of a str, element of a list.\<close>

fun py_in :: "pystr \<Rightarrow> pyval \<Rightarrow> bool option" where
  "py_in k (PDict d) = Some (map_of d k \<noteq> None)"
| "py_in k (PStr s) = Some (sublist k s)"
| "py_in k (PList xs) = Some (PStr k \<in> set xs)"
| "py_in k _ = None"

text \<open>Iteration (\<^verbatim>\<open>for x in v\<close>, a generator over \<open>v\<close>): lists, the characters of a str,
  the keys of a dict; anything else is not iterable.\<close>

fun py_iter :: "pyval \<Rightarrow> pyval list option" where
  "py_iter (PList xs) = Some xs"
| "py_iter (PStr s) = Some (map (\<lambda>c. PStr [c]) s)"
| "py_iter (PDict d) = Some (map PStr (remdups (map fst d)))"
| "py_iter _ = None"

fun py_len :: "pyval \<Rightarrow> nat option" where
  "py_len (PList xs) = Some (length xs)"
| "py_len (PStr s) = Some (length s)"
| "py_len (PDict d) = Some (length (remdups (map fst d)))"
| "py_len _ = None"

text \<open>\<^verbatim>\<open>all(isinstance(x, str) for x in v)\<close>.\<close>

definition all_str :: "pyval \<Rightarrow> bool option" where
  "all_str v = do { xs \<leftarrow> py_iter v; Some (list_all is_str xs) }"

text \<open>The characters \<^verbatim>\<open>str.strip()\<close> removes: those for which \<^verbatim>\<open>str.isspace\<close> holds.\<close>

definition is_space :: "nat \<Rightarrow> bool" where
  "is_space c \<longleftrightarrow>
     (0x09 \<le> c \<and> c \<le> 0x0D) \<or> (0x1C \<le> c \<and> c \<le> 0x20) \<or> c = 0x85 \<or> c = 0xA0 \<or>
     c = 0x1680 \<or> (0x2000 \<le> c \<and> c \<le> 0x200A) \<or> c = 0x2028 \<or> c = 0x2029 \<or>
     c = 0x202F \<or> c = 0x205F \<or> c = 0x3000"

definition strip :: "pystr \<Rightarrow> pystr" where
  "strip s = rev (dropWhile is_space (rev (dropWhile is_space s)))"

fun py_strip :: "pyval \<Rightarrow> pystr option" where
  "py_strip (PStr s) = Some (strip s)"
| "py_strip _ = None"

text \<open>
  \<^verbatim>\<open>str.lower()\<close> on the letters A to Z. Python also lowers letters beyond ASCII; none of
  them yields one of the letters of \<^verbatim>\<open>domomea\<close> (only U+0130 and U+212A lower to an
  ASCII letter, \<^verbatim>\<open>i\<close> and \<^verbatim>\<open>k\<close>), so the one test the source makes on a lowered
  string, \<^verbatim>\<open>"domomea" in label_en.lower()\<close>, has the same result.
\<close>

definition lower_char :: "nat \<Rightarrow> nat" where
  "lower_char c = (if 0x41 \<le> c \<and> c \<le> 0x5A then c + 0x20 else c)"

fun py_lower :: "pyval \<Rightarrow> pyval option" where
  "py_lower (PStr s) = Some (PStr (map lower_char s))"
| "py_lower _ = None"

text \<open>\<^verbatim>\<open>str(n)\<close> for a non-negative \<^verbatim>\<open>int\<close>, as the f-strings format an index.\<close>

definition digit_char :: "nat \<Rightarrow> char" where
  "digit_char d = ''0123456789'' ! d"

fun digits :: "nat \<Rightarrow> string" where
  "digits n = (if n < 10 then [digit_char n] else digits (n div 10) @ [digit_char (n mod 10)])"

declare digits.simps [simp del]

definition str_nat :: "nat \<Rightarrow> pystr" where
  "str_nat n = lit (digits n)"

text \<open>A \<^verbatim>\<open>for\<close> loop whose body only appends messages: the messages of each round, in order.
  An exception in any round leaves the loop.\<close>

fun for_each :: "('a \<Rightarrow> pystr list option) \<Rightarrow> 'a list \<Rightarrow> pystr list option" where
  "for_each body [] = Some []"
| "for_each body (x # xs) = do { m \<leftarrow> body x; ms \<leftarrow> for_each body xs; Some (m @ ms) }"

section \<open>The validator\<close>

text \<open>
  \<^verbatim>\<open>_is_localized(value)\<close>:
  \<^verbatim>\<open>isinstance(value, dict) and ("en" in value or "it" in value)\<close>.
\<close>

definition is_localized :: "pyval \<Rightarrow> bool option" where
  "is_localized v =
     (if is_dict v then do {
        en \<leftarrow> py_in (lit ''en'') v;
        if en then Some True else py_in (lit ''it'') v }
      else Some False)"

text \<open>
  \<^verbatim>\<open>errors\<close> is only ever appended to (\<^verbatim>\<open>_err\<close>), so each block of \<^verbatim>\<open>validate\<close> is a
  function returning the messages it appends, and \<^verbatim>\<open>validate\<close> concatenates the blocks
  in the order of the source.
\<close>

text \<open>Lines 32 to 34: the three keys that must be present.\<close>

definition required_key :: "pyval \<Rightarrow> pystr \<Rightarrow> pystr list option" where
  "required_key profile key = do {
     present \<leftarrow> py_in key profile;
     Some (if \<not> present then [lit ''Missing required top-level key: '' @ key] else []) }"

definition check_required :: "pyval \<Rightarrow> pystr list option" where
  "check_required profile =
     for_each (required_key profile) [lit ''person'', lit ''i18n'', lit ''projects'']"

text \<open>Lines 36 to 44.\<close>

definition i18n_lang :: "pyval \<Rightarrow> pystr \<Rightarrow> pystr list option" where
  "i18n_lang i18n lang = do {
     present \<leftarrow> py_in lang i18n;
     if \<not> present then Some [lit ''i18n missing language: '' @ lang]
     else do {
       v \<leftarrow> py_getitem i18n lang;
       Some (if \<not> is_dict v then [lit ''i18n.'' @ lang @ lit '' must be an object''] else []) } }"

definition check_i18n :: "pyval \<Rightarrow> pystr list option" where
  "check_i18n profile = do {
     i18n \<leftarrow> py_get profile (lit ''i18n'');
     if i18n \<noteq> PNone \<and> \<not> is_dict i18n then Some [lit ''i18n must be an object'']
     else if is_dict i18n then for_each (i18n_lang i18n) [lit ''en'', lit ''it'']
     else Some [] }"

text \<open>Lines 55 to 61: the id of one project and the set of ids seen so far.\<close>

definition check_id :: "nat \<Rightarrow> pystr set \<Rightarrow> pyval \<Rightarrow> (pystr list \<times> pystr set) option" where
  "check_id idx seen_ids proj = do {
     pid \<leftarrow> py_get proj (lit ''id'');
     blank \<leftarrow> (if \<not> is_str pid then Some True
               else do { t \<leftarrow> py_strip pid; Some (t = []) });
     if blank then
       Some ([lit ''projects['' @ str_nat idx @ lit ''].id must be a non-empty string''], seen_ids)
     else (case pid of
         PStr p \<Rightarrow>
           if p \<in> seen_ids then Some ([lit ''Duplicate projects[].id: '' @ p], seen_ids)
           else Some ([], insert p seen_ids)
       | _ \<Rightarrow> None) }"

text \<open>Lines 68 to 75: one element of \<^verbatim>\<open>contained\<close>.\<close>

definition contained_item :: "nat \<Rightarrow> nat \<times> pyval \<Rightarrow> pystr list option" where
  "contained_item idx = (\<lambda>(cidx, item).
     if \<not> is_dict item then
       Some [lit ''projects['' @ str_nat idx @ lit ''].contained['' @ str_nat cidx
               @ lit ''] must be an object'']
     else do {
       name \<leftarrow> py_get item (lit ''name'');
       has_tagline \<leftarrow> py_in (lit ''tagline'') item;
       bad_tagline \<leftarrow> (if has_tagline then do {
                          tagline \<leftarrow> py_get item (lit ''tagline'');
                          Some (\<not> (is_str tagline \<or> is_dict tagline)) }
                        else Some False);
       Some ((if \<not> (is_str name \<or> is_dict name) then
                [lit ''projects['' @ str_nat idx @ lit ''].contained['' @ str_nat cidx
                   @ lit ''].name must be string or localized object'']
              else [])
           @ (if bad_tagline then
                [lit ''projects['' @ str_nat idx @ lit ''].contained['' @ str_nat cidx
                   @ lit ''].tagline must be string or localized object'']
              else [])) })"

text \<open>Lines 63 to 75.\<close>

definition check_contained :: "nat \<Rightarrow> pyval \<Rightarrow> pystr list option" where
  "check_contained idx proj = do {
     contained \<leftarrow> py_get proj (lit ''contained'');
     if contained \<noteq> PNone then
       if \<not> is_list contained then
         Some [lit ''projects['' @ str_nat idx @ lit ''].contained must be an array'']
       else do {
         items \<leftarrow> py_iter contained;
         for_each (contained_item idx) (enumerate 0 items) }
     else Some [] }"

text \<open>Lines 83 to 90: the typed fields of \<^verbatim>\<open>spec\<close>.\<close>

definition spec_status :: "nat \<Rightarrow> pyval \<Rightarrow> pystr list option" where
  "spec_status idx spec = do {
     present \<leftarrow> py_in (lit ''status'') spec;
     bad \<leftarrow> (if present then do { v \<leftarrow> py_getitem spec (lit ''status''); Some (\<not> is_str v) }
             else Some False);
     Some (if bad then [lit ''projects['' @ str_nat idx @ lit ''].spec.status must be a string'']
           else []) }"

definition spec_loc_key :: "nat \<Rightarrow> pyval \<Rightarrow> pystr \<Rightarrow> pystr list option" where
  "spec_loc_key idx spec loc_key = do {
     present \<leftarrow> py_in loc_key spec;
     bad \<leftarrow> (if present then do {
               v \<leftarrow> py_getitem spec loc_key;
               loc \<leftarrow> is_localized v;
               if loc then Some False
               else do { w \<leftarrow> py_getitem spec loc_key; Some (\<not> is_str w) } }
             else Some False);
     Some (if bad then
             [lit ''projects['' @ str_nat idx @ lit ''].spec.'' @ loc_key
                @ lit '' must be string or localized object'']
           else []) }"

definition spec_list_key :: "nat \<Rightarrow> pyval \<Rightarrow> pystr \<Rightarrow> pystr list option" where
  "spec_list_key idx spec list_key = do {
     present \<leftarrow> py_in list_key spec;
     bad \<leftarrow> (if present then do { v \<leftarrow> py_getitem spec list_key; Some (\<not> is_list v) }
             else Some False);
     Some (if bad then
             [lit ''projects['' @ str_nat idx @ lit ''].spec.'' @ list_key
                @ lit '' must be an array'']
           else []) }"

text \<open>Lines 77 to 90.\<close>

definition check_spec :: "nat \<Rightarrow> pyval \<Rightarrow> pystr list option" where
  "check_spec idx proj = do {
     spec \<leftarrow> py_get proj (lit ''spec'');
     if spec \<noteq> PNone then
       if \<not> is_dict spec then
         Some [lit ''projects['' @ str_nat idx @ lit ''].spec must be an object'']
       else do {
         e1 \<leftarrow> spec_status idx spec;
         e2 \<leftarrow> for_each (spec_loc_key idx spec) [lit ''boundary'', lit ''purpose''];
         e3 \<leftarrow> for_each (spec_list_key idx spec)
                 [lit ''inputs'', lit ''outputs'', lit ''reuse'', lit ''constraints'',
                  lit ''current_focus''];
         Some (e1 @ e2 @ e3) }
     else Some [] }"

text \<open>Lines 51 to 90: the loop over \<^verbatim>\<open>enumerate(projects)\<close>, with \<^verbatim>\<open>seen_ids\<close> as its
  state; the result carries the final \<^verbatim>\<open>seen_ids\<close> next to the messages.\<close>

fun projects_loop ::
  "nat \<Rightarrow> pystr set \<Rightarrow> pyval list \<Rightarrow> (pystr list \<times> pystr set) option" where
  "projects_loop idx seen_ids [] = Some ([], seen_ids)"
| "projects_loop idx seen_ids (proj # rest) =
     (if \<not> is_dict proj then do {
        (ms, final) \<leftarrow> projects_loop (idx + 1) seen_ids rest;
        Some ((lit ''projects['' @ str_nat idx @ lit ''] must be an object'') # ms, final) }
      else do {
        (e1, seen') \<leftarrow> check_id idx seen_ids proj;
        e2 \<leftarrow> check_contained idx proj;
        e3 \<leftarrow> check_spec idx proj;
        (ms, final) \<leftarrow> projects_loop (idx + 1) seen' rest;
        Some (e1 @ e2 @ e3 @ ms, final) })"

text \<open>Lines 46 to 90.\<close>

definition check_projects :: "pyval \<Rightarrow> pystr list option" where
  "check_projects projects =
     (if projects \<noteq> PNone \<and> \<not> is_list projects then Some [lit ''projects must be an array'']
      else if is_list projects then do {
        ps \<leftarrow> py_iter projects;
        (ms, final) \<leftarrow> projects_loop 0 {} ps;
        Some ms }
      else Some [])"

text \<open>Lines 92 to 101.\<close>

definition contexts_disclaimer :: "pyval \<Rightarrow> pystr list option" where
  "contexts_disclaimer contexts = do {
     present \<leftarrow> py_in (lit ''disclaimer'') contexts;
     bad \<leftarrow> (if present then do {
               v \<leftarrow> py_getitem contexts (lit ''disclaimer'');
               loc \<leftarrow> is_localized v;
               if loc then Some False
               else do { w \<leftarrow> py_getitem contexts (lit ''disclaimer''); Some (\<not> is_str w) } }
             else Some False);
     Some (if bad then [lit ''contexts.disclaimer must be string or localized object'']
           else []) }"

definition contexts_list_key :: "pyval \<Rightarrow> pystr \<Rightarrow> pystr list option" where
  "contexts_list_key contexts list_key = do {
     present \<leftarrow> py_in list_key contexts;
     bad \<leftarrow> (if present then do { v \<leftarrow> py_getitem contexts list_key; Some (\<not> is_list v) }
             else Some False);
     Some (if bad then [lit ''contexts.'' @ list_key @ lit '' must be an array''] else []) }"

definition check_contexts :: "pyval \<Rightarrow> pystr list option" where
  "check_contexts profile = do {
     contexts \<leftarrow> py_get profile (lit ''contexts'');
     if contexts \<noteq> PNone then
       if \<not> is_dict contexts then Some [lit ''contexts must be an object'']
       else do {
         e1 \<leftarrow> contexts_disclaimer contexts;
         e2 \<leftarrow> for_each (contexts_list_key contexts)
                 [lit ''direct_work'', lit ''operational_exposure''];
         Some (e1 @ e2) }
     else Some [] }"

text \<open>Lines 103 to 110.\<close>

definition check_reading :: "pyval \<Rightarrow> pystr list option" where
  "check_reading profile = do {
     reading \<leftarrow> py_get profile (lit ''reading'');
     if reading \<noteq> PNone then
       if \<not> is_dict reading then Some [lit ''reading must be an object'']
       else do {
         domains \<leftarrow> py_get reading (lit ''domains'');
         Some (if domains \<noteq> PNone \<and> \<not> is_list domains
               then [lit ''reading.domains must be an array''] else []) }
     else Some [] }"

text \<open>Lines 112 to 135.\<close>

definition required_arrays :: "pystr list" where
  "required_arrays =
     [lit ''research_objective'', lit ''architecture_stack'', lit ''innovation'',
      lit ''validation_plan'', lit ''engineering_challenges'', lit ''dissemination'',
      lit ''training_teaching'']"

definition phd_key :: "pyval \<Rightarrow> pystr \<Rightarrow> pystr list option" where
  "phd_key phd_extract key = do {
     v \<leftarrow> py_get phd_extract key;
     if v = PNone then Some [lit ''phd_extract missing required key: '' @ key]
     else do {
       bad \<leftarrow> (if \<not> is_list v then Some True else do { a \<leftarrow> all_str v; Some (\<not> a) });
       Some (if bad then [lit ''phd_extract.'' @ key @ lit '' must be an array of strings'']
             else []) } }"

definition check_phd_extract :: "pyval \<Rightarrow> pystr list option" where
  "check_phd_extract profile = do {
     phd_extract \<leftarrow> py_get profile (lit ''phd_extract'');
     if phd_extract = PNone then Some [lit ''Missing required top-level key: phd_extract'']
     else if \<not> is_dict phd_extract then Some [lit ''phd_extract must be an object'']
     else do {
       source \<leftarrow> py_get phd_extract (lit ''source'');
       ms \<leftarrow> for_each (phd_key phd_extract) required_arrays;
       Some ((if source = PNone \<or> \<not> is_dict source
              then [lit ''phd_extract.source must be an object''] else []) @ ms) } }"

text \<open>Lines 140 to 152: collecting the items whose English label contains
  \<^verbatim>\<open>domomea\<close>, whatever its case.\<close>

definition is_domomea :: "pyval \<Rightarrow> bool option" where
  "is_domomea item = do {
     label \<leftarrow> py_get item (lit ''label'');
     label_en \<leftarrow> (if is_dict label then py_get label (lit ''en'') else Some label);
     if is_str label_en then do {
       low \<leftarrow> py_lower label_en;
       py_in (lit ''domomea'') low }
     else Some False }"

fun items_loop :: "pyval list \<Rightarrow> pyval list option" where
  "items_loop [] = Some []"
| "items_loop (item # rest) =
     (if \<not> is_dict item then items_loop rest
      else do {
        hit \<leftarrow> is_domomea item;
        found \<leftarrow> items_loop rest;
        Some (if hit then item # found else found) })"

fun groups_loop :: "pyval list \<Rightarrow> pyval list option" where
  "groups_loop [] = Some []"
| "groups_loop (grp # rest) =
     (if \<not> is_dict grp then groups_loop rest
      else do {
        items \<leftarrow> py_get grp (lit ''items'');
        if \<not> is_list items then groups_loop rest
        else do {
          xs \<leftarrow> py_iter items;
          found \<leftarrow> items_loop xs;
          more \<leftarrow> groups_loop rest;
          Some (found @ more) } })"

text \<open>Lines 157 to 165: one matching item; \<open>idx\<close> counts from 0 and is printed as
  \<^verbatim>\<open>idx + 1\<close>. The dash of \<^verbatim>\<open>6-10\<close> and \<^verbatim>\<open>4-8\<close> in the source is U+2013.\<close>

definition en_dash :: "pystr" where
  "en_dash = [0x2013]"

definition domomea_item :: "nat \<times> pyval \<Rightarrow> pystr list option" where
  "domomea_item = (\<lambda>(idx, item). do {
     bullets \<leftarrow> py_get item (lit ''bullets'');
     bad \<leftarrow> (if \<not> is_list bullets then Some True
             else do { a \<leftarrow> all_str bullets; Some (\<not> a) });
     e1 \<leftarrow> (if bad then
               Some [lit ''DoMoMEA proof item #'' @ str_nat (idx + 1)
                       @ lit '' bullets must be an array of strings'']
             else do {
               n \<leftarrow> py_len bullets;
               Some (if \<not> (6 \<le> n \<and> n \<le> 10) then
                       [lit ''DoMoMEA proof item #'' @ str_nat (idx + 1)
                          @ lit '' bullets must have 6'' @ en_dash @ lit ''10 items'']
                     else []) });
     source \<leftarrow> py_get item (lit ''source'');
     Some (e1 @ (if \<not> (is_str source \<or> is_dict source) then
                   [lit ''DoMoMEA proof item #'' @ str_nat (idx + 1)
                      @ lit '' source must be a string or localized object'']
                 else [])) })"

text \<open>Lines 137 to 165.\<close>

definition check_proof :: "pyval \<Rightarrow> pystr list option" where
  "check_proof profile = do {
     proof \<leftarrow> py_get profile (lit ''proof'');
     enter \<leftarrow> (if is_dict proof then do {
                  c \<leftarrow> py_get proof (lit ''categories''); Some (is_list c) }
                else Some False);
     if enter then do {
       categories \<leftarrow> py_getitem proof (lit ''categories'');
       groups \<leftarrow> py_iter categories;
       domomea_items \<leftarrow> groups_loop groups;
       if domomea_items = [] then
         Some [lit ''proof.categories must include a DoMoMEA evidence item'']
       else for_each domomea_item (enumerate 0 domomea_items) }
     else Some [] }"

text \<open>Line 168: \<^verbatim>\<open>next((p for p in projects if isinstance(p, dict) and
  p.get("id") == "bmi"), None)\<close>.\<close>

fun find_bmi :: "pyval list \<Rightarrow> pyval option" where
  "find_bmi [] = Some PNone"
| "find_bmi (p # ps) = do {
     hit \<leftarrow> (if is_dict p then do { i \<leftarrow> py_get p (lit ''id''); Some (i = PStr (lit ''bmi'')) }
             else Some False);
     if hit then Some p else find_bmi ps }"

text \<open>Lines 167 to 177.\<close>

definition check_bmi :: "pyval \<Rightarrow> pystr list option" where
  "check_bmi projects =
     (if is_list projects then do {
        ps \<leftarrow> py_iter projects;
        bmi \<leftarrow> find_bmi ps;
        if bmi = PNone then Some [lit ''projects must include id=bmi'']
        else do {
          evidence \<leftarrow> py_get bmi (lit ''evidence_bullets'');
          if evidence \<noteq> PNone then do {
            bad \<leftarrow> (if \<not> is_list evidence then Some True
                    else do { a \<leftarrow> all_str evidence; Some (\<not> a) });
            if bad then
              Some [lit ''projects[id=bmi].evidence_bullets must be an array of strings'']
            else do {
              n \<leftarrow> py_len evidence;
              Some (if \<not> (4 \<le> n \<and> n \<le> 8) then
                      [lit ''projects[id=bmi].evidence_bullets must have 4'' @ en_dash
                         @ lit ''8 items'']
                    else []) } }
          else Some [] } }
      else Some [])"

text \<open>Lines 26 to 179.\<close>

definition validate :: "pyval \<Rightarrow> pystr list option" where
  "validate profile =
     (if \<not> is_dict profile then Some [lit ''Root JSON value must be an object'']
      else do {
        e1 \<leftarrow> check_required profile;
        e2 \<leftarrow> check_i18n profile;
        projects \<leftarrow> py_get profile (lit ''projects'');
        e3 \<leftarrow> check_projects projects;
        e4 \<leftarrow> check_contexts profile;
        e5 \<leftarrow> check_reading profile;
        e6 \<leftarrow> check_phd_extract profile;
        e7 \<leftarrow> check_proof profile;
        e8 \<leftarrow> check_bmi projects;
        Some (e1 @ e2 @ e3 @ e4 @ e5 @ e6 @ e7 @ e8) })"

section \<open>The command line\<close>

text \<open>
  \<^verbatim>\<open>main\<close>, lines 182 to 207. Its two library calls are taken as follows.
  \<^verbatim>\<open>profile_path.read_text(encoding="utf-8")\<close> raises \<^verbatim>\<open>OSError\<close>, or raises
  \<^verbatim>\<open>UnicodeDecodeError\<close> (a \<^verbatim>\<open>ValueError\<close>, which \<^verbatim>\<open>main\<close> does not catch), or returns
  the decoded text; the \<^verbatim>\<open>utf-8\<close> codec, unlike \<^verbatim>\<open>utf-8-sig\<close>, keeps a byte-order mark
  at the start of a file as the code point U+FEFF at the start of the text.
  \<^verbatim>\<open>json.loads\<close> of a \<^verbatim>\<open>str\<close> first refuses a text that starts with U+FEFF, raising
  \<^verbatim>\<open>JSONDecodeError\<close> ("Unexpected UTF-8 BOM (decode using utf-8-sig)"), and otherwise
  runs its decoder, which is a parameter here. The decoder returns the decoded value, or
  raises \<^verbatim>\<open>JSONDecodeError\<close>, which \<^verbatim>\<open>main\<close> catches, or raises another exception
  (\<^verbatim>\<open>ValueError\<close> on an integer beyond the digit limit, \<^verbatim>\<open>RecursionError\<close> on deep
  nesting), which \<^verbatim>\<open>main\<close> does not catch.
\<close>

datatype read_result = OSError | UnicodeDecodeError | Text pystr

datatype loads_result = Decoded pyval | JSONDecodeError | OtherError

datatype report = ReadFailed | InvalidJSON | SchemaFailed "pystr list" | Passed | Raised

definition json_loads :: "(pystr \<Rightarrow> loads_result) \<Rightarrow> pystr \<Rightarrow> loads_result" where
  "json_loads decoder s = (if prefix [0xFEFF] s then JSONDecodeError else decoder s)"

definition main :: "(pystr \<Rightarrow> loads_result) \<Rightarrow> read_result \<Rightarrow> report" where
  "main decoder file =
     (case file of
        OSError \<Rightarrow> ReadFailed
      | UnicodeDecodeError \<Rightarrow> Raised
      | Text raw \<Rightarrow>
          (case json_loads decoder raw of
             JSONDecodeError \<Rightarrow> InvalidJSON
           | OtherError \<Rightarrow> Raised
           | Decoded profile \<Rightarrow>
               (case validate profile of
                  None \<Rightarrow> Raised
                | Some errors \<Rightarrow> if errors \<noteq> [] then SchemaFailed errors else Passed)))"

text \<open>The value \<^verbatim>\<open>main\<close> returns, which becomes the exit status; an exception that
  leaves \<^verbatim>\<open>main\<close> returns none.\<close>

fun exit_code :: "report \<Rightarrow> nat option" where
  "exit_code ReadFailed = Some 2"
| "exit_code InvalidJSON = Some 1"
| "exit_code (SchemaFailed errors) = Some 1"
| "exit_code Passed = Some 0"
| "exit_code Raised = None"

section \<open>Notions used in the statements\<close>

text \<open>A message begins with an ASCII literal of the source.\<close>

definition starts :: "string \<Rightarrow> pystr \<Rightarrow> bool" where
  "starts s m \<longleftrightarrow> prefix (lit s) m"

text \<open>The messages of the loop over the projects that name an index begin with
  \<^verbatim>\<open>projects[\<close> and a digit; those about the \<^verbatim>\<open>bmi\<close> project, with \<^verbatim>\<open>projects[id=bmi]\<close>.\<close>

definition indexed :: "pystr \<Rightarrow> bool" where
  "indexed m \<longleftrightarrow> starts ''projects['' m \<and> \<not> starts ''projects[i'' m"

text \<open>The messages of the proof block (lines 155 to 165): the missing evidence item and
  the three about a DoMoMEA proof item.\<close>

definition is_proof_msg :: "pystr \<Rightarrow> bool" where
  "is_proof_msg m \<longleftrightarrow> starts ''proof.'' m \<or> starts ''DoMoMEA proof item'' m"

text \<open>The duplicate-id messages (line 59).\<close>

definition is_duplicate_msg :: "pystr \<Rightarrow> bool" where
  "is_duplicate_msg m \<longleftrightarrow> starts ''Duplicate projects[].id: '' m"

text \<open>How the messages of the blocks begin: those of the required keys, of \<^verbatim>\<open>i18n\<close>,
  \<^verbatim>\<open>contexts\<close> and \<^verbatim>\<open>reading\<close> (\<open>eo\<close>), of the projects (\<open>e3\<close>), of
  \<^verbatim>\<open>phd_extract\<close> (\<open>e6\<close>), of the proof items (\<open>e7\<close>) and of the \<^verbatim>\<open>bmi\<close> project
  (\<open>e8\<close>).\<close>

definition shaped ::
  "pystr list \<Rightarrow> pystr list \<Rightarrow> pystr list \<Rightarrow> pystr list \<Rightarrow> pystr list \<Rightarrow> bool" where
  "shaped eo e3 e6 e7 e8 \<longleftrightarrow>
     list_all (\<lambda>m. starts ''Missing '' m \<or> starts ''i18n'' m \<or> starts ''contexts'' m
                  \<or> starts ''reading'' m) eo \<and>
     list_all (\<lambda>m. m = lit ''projects must be an array'' \<or> indexed m
                  \<or> starts ''Duplicate projects[].id: '' m) e3 \<and>
     list_all (\<lambda>m. starts ''Missing '' m \<or> starts ''phd_extract'' m) e6 \<and>
     list_all (\<lambda>m. starts ''proof.'' m \<or> starts ''DoMoMEA proof item #'' m) e7 \<and>
     list_all (\<lambda>m. m = lit ''projects must include id=bmi'' \<or> starts ''projects[id=bmi]'' m) e8"

text \<open>The entries that line 168 looks for: objects whose "id" equals \<^verbatim>\<open>"bmi"\<close>.\<close>

definition is_bmi :: "pyval \<Rightarrow> bool" where
  "is_bmi p \<longleftrightarrow> is_dict p \<and> py_get p (lit ''id'') = Some (PStr (lit ''bmi''))"

text \<open>The id under which the loop of lines 51 to 61 records an entry in \<^verbatim>\<open>seen_ids\<close>: the
  entry is an object and its "id" is a string that \<^verbatim>\<open>strip()\<close> does not empty.\<close>

definition entry_id :: "pyval \<Rightarrow> pystr option" where
  "entry_id proj =
     (case proj of
        PDict d \<Rightarrow>
          (case map_of d (lit ''id'') of
             Some (PStr pid) \<Rightarrow> if strip pid = [] then None else Some pid
           | _ \<Rightarrow> None)
      | _ \<Rightarrow> None)"

text \<open>Entry \<open>i\<close> of the array repeats the id of an earlier entry.\<close>

definition later_occurrence :: "pyval list \<Rightarrow> nat \<Rightarrow> bool" where
  "later_occurrence ps i \<longleftrightarrow>
     entry_id (ps ! i) \<noteq> None \<and> entry_id (ps ! i) \<in> set (map entry_id (take i ps))"

text \<open>The ids reported as duplicates along a list of recorded ids, starting from a set of
  ids already seen.\<close>

fun dup_ids :: "pystr set \<Rightarrow> pystr option list \<Rightarrow> pystr list" where
  "dup_ids seen [] = []"
| "dup_ids seen (None # es) = dup_ids seen es"
| "dup_ids seen (Some x # es) =
     (if x \<in> seen then x # dup_ids seen es else dup_ids (insert x seen) es)"



definition is_strings :: "pyval \<Rightarrow> bool" where
  "is_strings v \<longleftrightarrow> (case v of PList xs \<Rightarrow> list_all is_str xs | _ \<Rightarrow> False)"

section \<open>Every operation of the validator returns\<close>

text \<open>The literal strings of the source, character by character.\<close>

lemma lit_Nil: "lit [] = []" by (simp add: lit_def)
lemma lit_Cons: "lit (c # cs) = of_char c # lit cs" by (simp add: lit_def)
lemmas lit_simps = lit_Nil lit_Cons

lemma total_Some: "\<exists>y. Some x = Some y" by simp
lemma total_bind:
  assumes "\<exists>x. m = Some x" and "\<And>x. m = Some x \<Longrightarrow> \<exists>y. f x = Some y"
  shows "\<exists>y. Option.bind m f = Some y"
  using assms by auto
lemma total_if:
  assumes "c \<Longrightarrow> \<exists>y. a = Some y" and "\<not> c \<Longrightarrow> \<exists>y. b = Some y"
  shows "\<exists>y. (if c then a else b) = Some y"
  using assms by auto
lemma total_case_prod:
  assumes "\<And>a b. p = (a, b) \<Longrightarrow> \<exists>y. f a b = Some y"
  shows "\<exists>y. (case p of (a, b) \<Rightarrow> f a b) = Some y"
  using assms by (cases p) auto
lemma total_for_each:
  assumes "\<And>x. x \<in> set xs \<Longrightarrow> \<exists>m. body x = Some m"
  shows "\<exists>ms. for_each body xs = Some ms"
  using assms by (induction xs) (auto simp: bind_eq_Some_conv)
lemma total_py_get: "is_dict v \<Longrightarrow> \<exists>x. py_get v k = Some x"
  by (cases v) simp_all
lemma total_py_in: "is_dict v \<or> is_str v \<Longrightarrow> \<exists>x. py_in k v = Some x"
  by (cases v) simp_all
lemma total_py_getitem: "py_in k v = Some True \<Longrightarrow> is_dict v \<Longrightarrow> \<exists>x. py_getitem v k = Some x"
  by (cases v) auto
lemma total_py_iter: "is_list v \<Longrightarrow> \<exists>x. py_iter v = Some x"
  by (cases v) simp_all
lemma total_py_len: "is_list v \<Longrightarrow> \<exists>x. py_len v = Some x"
  by (cases v) simp_all
lemma total_py_strip: "is_str v \<Longrightarrow> \<exists>x. py_strip v = Some x"
  by (cases v) simp_all
lemma total_py_lower: "is_str v \<Longrightarrow> \<exists>x. py_lower v = Some x"
  by (cases v) simp_all
lemma py_lower_is_str: "py_lower v = Some w \<Longrightarrow> is_str w"
  by (cases v) auto
lemma total_all_str: "is_list v \<Longrightarrow> \<exists>b. all_str v = Some b"
  by (cases v) (simp_all add: all_str_def)
lemmas total_intros = total_Some total_bind total_if total_case_prod total_for_each

lemma total_is_localized: "\<exists>b. is_localized v = Some b"
  unfolding is_localized_def by (intro total_intros total_py_in) auto

lemma total_required_key: "is_dict profile \<Longrightarrow> \<exists>ms. required_key profile key = Some ms"
  unfolding required_key_def by (intro total_intros total_py_in) auto

lemma total_check_required: "is_dict profile \<Longrightarrow> \<exists>ms. check_required profile = Some ms"
  unfolding check_required_def by (intro total_intros total_required_key)

lemma total_i18n_lang: "is_dict i18n \<Longrightarrow> \<exists>ms. i18n_lang i18n lang = Some ms"
  unfolding i18n_lang_def by (intro total_intros total_py_in total_py_getitem) auto

lemma total_check_i18n: "is_dict profile \<Longrightarrow> \<exists>ms. check_i18n profile = Some ms"
  unfolding check_i18n_def by (intro total_intros total_py_get total_i18n_lang) auto

lemma total_check_id: "is_dict proj \<Longrightarrow> \<exists>r. check_id idx seen proj = Some r"
  unfolding check_id_def
  by (intro total_intros total_py_get total_py_strip) (auto split: pyval.splits)

lemma total_contained_item: "\<exists>ms. contained_item idx x = Some ms"
  unfolding contained_item_def
  by (intro total_intros total_py_get total_py_in) auto

lemma total_check_contained: "is_dict proj \<Longrightarrow> \<exists>ms. check_contained idx proj = Some ms"
  unfolding check_contained_def
  by (intro total_intros total_py_get total_py_iter total_contained_item) auto

lemma total_spec_status: "is_dict spec \<Longrightarrow> \<exists>ms. spec_status idx spec = Some ms"
  unfolding spec_status_def by (intro total_intros total_py_in total_py_getitem) auto

lemma total_spec_loc_key: "is_dict spec \<Longrightarrow> \<exists>ms. spec_loc_key idx spec k = Some ms"
  unfolding spec_loc_key_def
  by (intro total_intros total_py_in total_py_getitem total_is_localized) auto

lemma total_spec_list_key: "is_dict spec \<Longrightarrow> \<exists>ms. spec_list_key idx spec k = Some ms"
  unfolding spec_list_key_def by (intro total_intros total_py_in total_py_getitem) auto

lemma total_check_spec: "is_dict proj \<Longrightarrow> \<exists>ms. check_spec idx proj = Some ms"
  unfolding check_spec_def
  by (intro total_intros total_py_get total_spec_status total_spec_loc_key total_spec_list_key) auto

lemma total_projects_loop: "\<exists>r. projects_loop idx seen ps = Some r"
proof (induction ps arbitrary: idx seen)
  case Nil
  show ?case by simp
next
  case (Cons proj rest)
  show ?case
    unfolding projects_loop.simps
    by (intro total_intros total_check_id total_check_contained total_check_spec Cons.IH) auto
qed

lemma total_check_projects: "\<exists>ms. check_projects projects = Some ms"
  unfolding check_projects_def
  by (intro total_intros total_py_iter total_projects_loop) auto

lemma total_contexts_disclaimer: "is_dict c \<Longrightarrow> \<exists>ms. contexts_disclaimer c = Some ms"
  unfolding contexts_disclaimer_def
  by (intro total_intros total_py_in total_py_getitem total_is_localized) auto

lemma total_contexts_list_key: "is_dict c \<Longrightarrow> \<exists>ms. contexts_list_key c k = Some ms"
  unfolding contexts_list_key_def by (intro total_intros total_py_in total_py_getitem) auto

lemma total_check_contexts: "is_dict profile \<Longrightarrow> \<exists>ms. check_contexts profile = Some ms"
  unfolding check_contexts_def
  by (intro total_intros total_py_get total_contexts_disclaimer total_contexts_list_key) auto

lemma total_check_reading: "is_dict profile \<Longrightarrow> \<exists>ms. check_reading profile = Some ms"
  unfolding check_reading_def by (intro total_intros total_py_get) auto

lemma total_phd_key: "is_dict phd \<Longrightarrow> \<exists>ms. phd_key phd key = Some ms"
  unfolding phd_key_def by (intro total_intros total_py_get total_all_str) auto

lemma total_check_phd_extract: "is_dict profile \<Longrightarrow> \<exists>ms. check_phd_extract profile = Some ms"
  unfolding check_phd_extract_def by (intro total_intros total_py_get total_phd_key) auto

lemma total_is_domomea: "is_dict item \<Longrightarrow> \<exists>b. is_domomea item = Some b"
  unfolding is_domomea_def
  by (intro total_intros total_py_get total_py_lower total_py_in) (auto dest: py_lower_is_str)

lemma total_items_loop: "\<exists>r. items_loop xs = Some r"
proof (induction xs)
  case Nil
  show ?case by simp
next
  case (Cons item rest)
  show ?case
    unfolding items_loop.simps
    by (intro total_intros total_is_domomea Cons.IH) auto
qed

lemma items_loop_dicts: "items_loop xs = Some r \<Longrightarrow> x \<in> set r \<Longrightarrow> is_dict x"
  by (induction xs arbitrary: r) (auto simp: bind_eq_Some_conv split: if_splits)

lemma total_groups_loop: "\<exists>r. groups_loop gs = Some r"
proof (induction gs)
  case Nil
  show ?case by simp
next
  case (Cons g rest)
  show ?case
    unfolding groups_loop.simps
    by (intro total_intros total_py_get total_py_iter total_items_loop Cons.IH) auto
qed

lemma groups_loop_dicts: "groups_loop gs = Some r \<Longrightarrow> x \<in> set r \<Longrightarrow> is_dict x"
  by (induction gs arbitrary: r) (auto simp: bind_eq_Some_conv items_loop_dicts split: if_splits)

lemma total_domomea_item: "is_dict (snd x) \<Longrightarrow> \<exists>ms. domomea_item x = Some ms"
  unfolding domomea_item_def
  by (intro total_intros total_py_get total_all_str total_py_len)
     (auto split: if_splits)

lemma enumerate_snd: "x \<in> set (enumerate n xs) \<Longrightarrow> snd x \<in> set xs"
  by (metis image_eqI list.set_map map_snd_enumerate)

lemma py_getitem_of_get:
  "py_get v k = Some c \<Longrightarrow> c \<noteq> PNone \<Longrightarrow> py_getitem v k = Some c"
  by (cases v) (auto split: option.splits)

lemma total_check_proof: "is_dict profile \<Longrightarrow> \<exists>ms. check_proof profile = Some ms"
proof -
  assume root: "is_dict profile"
  then obtain pf where p: "py_get profile (lit ''proof'') = Some pf"
    using total_py_get by blast
  show ?thesis
  proof (cases "is_dict pf")
    case False
    then show ?thesis by (simp add: check_proof_def p)
  next
    case True
    then obtain c where c: "py_get pf (lit ''categories'') = Some c"
      using total_py_get by blast
    show ?thesis
    proof (cases "is_list c")
      case False
      then show ?thesis using True by (simp add: check_proof_def p c)
    next
      case lst: True
      then have gi: "py_getitem pf (lit ''categories'') = Some c"
        using c by (intro py_getitem_of_get) auto
      obtain groups where g: "py_iter c = Some groups"
        using lst total_py_iter by blast
      obtain found where f: "groups_loop groups = Some found"
        using total_groups_loop by blast
      have "is_dict (snd x)" if "x \<in> set (enumerate 0 found)" for x
      proof -
        have "snd x \<in> set found"
          using that by (rule enumerate_snd)
        then show ?thesis by (rule groups_loop_dicts [OF f])
      qed
      then have "\<exists>ms. for_each domomea_item (enumerate 0 found) = Some ms"
        by (intro total_for_each total_domomea_item)
      then show ?thesis
        using True lst by (auto simp: check_proof_def p c gi g f)
    qed
  qed
qed

lemma total_find_bmi: "\<exists>r. find_bmi ps = Some r"
proof (induction ps)
  case Nil
  show ?case by simp
next
  case (Cons p rest)
  show ?case
    unfolding find_bmi.simps
    by (intro total_intros total_py_get Cons.IH) auto
qed

lemma find_bmi_result: "find_bmi ps = Some r \<Longrightarrow> r = PNone \<or> is_dict r"
  by (induction ps) (auto simp: bind_eq_Some_conv split: if_splits)

lemma total_check_bmi: "\<exists>ms. check_bmi projects = Some ms"
  unfolding check_bmi_def
  by (intro total_intros total_py_iter total_find_bmi total_py_get total_all_str total_py_len)
     (auto split: if_splits dest: find_bmi_result)

lemma validate_blocks:
  assumes "is_dict profile"
  obtains projects e1 e2 e3 e4 e5 e6 e7 e8 where
    "py_get profile (lit ''projects'') = Some projects"
    "check_required profile = Some e1"
    "check_i18n profile = Some e2"
    "check_projects projects = Some e3"
    "check_contexts profile = Some e4"
    "check_reading profile = Some e5"
    "check_phd_extract profile = Some e6"
    "check_proof profile = Some e7"
    "check_bmi projects = Some e8"
    "validate profile = Some (e1 @ e2 @ e3 @ e4 @ e5 @ e6 @ e7 @ e8)"
proof -
  obtain projects where 0: "py_get profile (lit ''projects'') = Some projects"
    using assms total_py_get by blast
  obtain e1 where 1: "check_required profile = Some e1"
    using assms total_check_required by blast
  obtain e2 where 2: "check_i18n profile = Some e2"
    using assms total_check_i18n by blast
  obtain e3 where 3: "check_projects projects = Some e3"
    using total_check_projects by blast
  obtain e4 where 4: "check_contexts profile = Some e4"
    using assms total_check_contexts by blast
  obtain e5 where 5: "check_reading profile = Some e5"
    using assms total_check_reading by blast
  obtain e6 where 6: "check_phd_extract profile = Some e6"
    using assms total_check_phd_extract by blast
  obtain e7 where 7: "check_proof profile = Some e7"
    using assms total_check_proof by blast
  obtain e8 where 8: "check_bmi projects = Some e8"
    using total_check_bmi by blast
  have "validate profile = Some (e1 @ e2 @ e3 @ e4 @ e5 @ e6 @ e7 @ e8)"
    using assms by (simp add: validate_def 0 1 2 3 4 5 6 7 8)
  with 0 1 2 3 4 5 6 7 8 show thesis by (rule that)
qed

section \<open>The shape of the messages of each block\<close>

lemma prefix_lit: "prefix (lit s) (lit t) \<longleftrightarrow> prefix s t"
proof (induction s arbitrary: t)
  case Nil
  show ?case by (simp add: lit_simps)
next
  case (Cons c s)
  then show ?case by (cases t) (simp_all add: lit_simps)
qed

lemma lit_append: "lit (s @ t) = lit s @ lit t"
  by (simp add: lit_def)

lemma starts_lit [simp]: "starts s (lit t) \<longleftrightarrow> prefix s t"
  by (simp add: starts_def prefix_lit)

lemma starts_lit_append_yes: "prefix s t \<Longrightarrow> starts s (lit t @ r)"
  unfolding starts_def by (metis prefix_lit prefix_prefix)

lemma starts_clash:
  assumes "starts s m" and "starts t m"
  shows "prefix s t \<or> prefix t s"
  using assms prefix_same_cases [of "lit s" m "lit t"] by (simp add: starts_def prefix_lit)

lemma starts_lit_append_no: "\<not> prefix s t \<Longrightarrow> \<not> prefix t s \<Longrightarrow> \<not> starts s (lit t @ r)"
  using starts_clash [of s "lit t @ r" t] starts_lit_append_yes [of t t r] by auto

lemmas starts_simps = starts_lit_append_yes starts_lit_append_no


lemma for_each_mem:
  "for_each body xs = Some ms \<Longrightarrow> m \<in> set ms \<Longrightarrow>
     \<exists>x mx. x \<in> set xs \<and> body x = Some mx \<and> m \<in> set mx"
proof (induction xs arbitrary: ms)
  case Nil
  then show ?case by simp
next
  case (Cons a xs)
  from Cons.prems(1) obtain ma mr where
    a: "body a = Some ma" and r: "for_each body xs = Some mr" and ms: "ms = ma @ mr"
    by (auto simp: bind_eq_Some_conv)
  from Cons.prems(2) ms have "m \<in> set ma \<or> m \<in> set mr" by auto
  then show ?case
  proof
    assume "m \<in> set ma"
    with a show ?thesis by auto
  next
    assume "m \<in> set mr"
    from Cons.IH [OF r this] show ?thesis by auto
  qed
qed

lemma for_each_all:
  assumes "for_each body xs = Some ms"
    and "\<And>x mx m. x \<in> set xs \<Longrightarrow> body x = Some mx \<Longrightarrow> m \<in> set mx \<Longrightarrow> P m"
    and "m \<in> set ms"
  shows "P m"
  using for_each_mem [OF assms(1,3)] assms(2) by blast

lemma for_each_memI:
  "for_each body xs = Some ms \<Longrightarrow> x \<in> set xs \<Longrightarrow> body x = Some mx \<Longrightarrow> m \<in> set mx
     \<Longrightarrow> m \<in> set ms"
  by (induction xs arbitrary: ms) (auto simp: bind_eq_Some_conv)

lemma required_key_form:
  "required_key profile key = Some ms \<Longrightarrow> m \<in> set ms \<Longrightarrow> starts ''Missing '' m"
  by (auto simp: required_key_def bind_eq_Some_conv starts_simps split: if_splits)

lemma check_required_form:
  "check_required profile = Some ms \<Longrightarrow> m \<in> set ms \<Longrightarrow> starts ''Missing '' m"
  unfolding check_required_def by (erule for_each_all) (rule required_key_form)

lemma i18n_lang_form:
  "i18n_lang i18n lang = Some ms \<Longrightarrow> m \<in> set ms \<Longrightarrow> starts ''i18n'' m"
  by (auto simp: i18n_lang_def bind_eq_Some_conv starts_simps split: if_splits)

lemma check_i18n_form:
  "check_i18n profile = Some ms \<Longrightarrow> m \<in> set ms \<Longrightarrow> starts ''i18n'' m"
  by (auto simp: check_i18n_def bind_eq_Some_conv split: if_splits
        simp del: for_each.simps elim: for_each_all [OF _ i18n_lang_form])

lemma contexts_disclaimer_form:
  "contexts_disclaimer c = Some ms \<Longrightarrow> m \<in> set ms \<Longrightarrow> starts ''contexts'' m"
  by (auto simp: contexts_disclaimer_def bind_eq_Some_conv starts_simps split: if_splits)

lemma contexts_list_key_form:
  "contexts_list_key c k = Some ms \<Longrightarrow> m \<in> set ms \<Longrightarrow> starts ''contexts'' m"
  by (auto simp: contexts_list_key_def bind_eq_Some_conv starts_simps split: if_splits)

lemma check_contexts_form:
  "check_contexts profile = Some ms \<Longrightarrow> m \<in> set ms \<Longrightarrow> starts ''contexts'' m"
  by (auto simp: check_contexts_def bind_eq_Some_conv split: if_splits
        simp del: for_each.simps
        dest: contexts_disclaimer_form elim: for_each_all [OF _ contexts_list_key_form])

lemma check_reading_form:
  "check_reading profile = Some ms \<Longrightarrow> m \<in> set ms \<Longrightarrow> starts ''reading'' m"
  by (auto simp: check_reading_def bind_eq_Some_conv split: if_splits)

lemma phd_key_form:
  "phd_key phd key = Some ms \<Longrightarrow> m \<in> set ms \<Longrightarrow> starts ''phd_extract'' m"
  by (auto simp: phd_key_def bind_eq_Some_conv starts_simps split: if_splits)

lemma check_phd_extract_form:
  "check_phd_extract profile = Some ms \<Longrightarrow> m \<in> set ms \<Longrightarrow>
     starts ''Missing '' m \<or> starts ''phd_extract'' m"
  by (auto simp: check_phd_extract_def bind_eq_Some_conv split: if_splits
        dest: for_each_all [OF _ phd_key_form])


lemma digits_Cons: "\<exists>d ds. digits n = d # ds \<and> d \<in> set ''0123456789''"
proof (induction n rule: digits.induct)
  case (1 n)
  show ?case
  proof (cases "n < 10")
    case True
    then have "digit_char n \<in> set ''0123456789''"
      unfolding digit_char_def by (intro nth_mem) simp
    with True show ?thesis by (subst digits.simps) simp
  next
    case False
    with 1 obtain d ds where "digits (n div 10) = d # ds" "d \<in> set ''0123456789''"
      by blast
    with False show ?thesis by (subst digits.simps) simp
  qed
qed

lemma indexedI: "indexed (lit ''projects['' @ str_nat idx @ r)"
proof -
  obtain d ds where d: "digits idx = d # ds" "d \<in> set ''0123456789''"
    using digits_Cons by blast
  have eq: "lit ''projects['' @ str_nat idx @ r = lit (''projects['' @ [d]) @ (lit ds @ r)"
    by (simp add: str_nat_def d lit_append lit_simps)
  have "\<not> starts ''projects[i'' (lit (''projects['' @ [d]) @ (lit ds @ r))"
    using d(2) by (intro starts_lit_append_no) auto
  then have "\<not> starts ''projects[i'' (lit ''projects['' @ str_nat idx @ r)"
    unfolding eq .
  then show ?thesis
    by (simp add: indexed_def starts_simps)
qed


lemma check_id_form:
  "check_id idx seen proj = Some (ms, seen') \<Longrightarrow> m \<in> set ms \<Longrightarrow>
     indexed m \<or> starts ''Duplicate projects[].id: '' m"
  by (auto simp: check_id_def bind_eq_Some_conv indexedI starts_simps
      split: if_splits pyval.splits)

lemma contained_item_form:
  "contained_item idx x = Some ms \<Longrightarrow> m \<in> set ms \<Longrightarrow> indexed m"
  by (cases x) (auto simp: contained_item_def bind_eq_Some_conv indexedI split: if_splits)

lemma check_contained_form:
  "check_contained idx proj = Some ms \<Longrightarrow> m \<in> set ms \<Longrightarrow> indexed m"
  by (auto simp: check_contained_def bind_eq_Some_conv indexedI split: if_splits
        dest: for_each_all [OF _ contained_item_form])

lemma spec_status_form:
  "spec_status idx spec = Some ms \<Longrightarrow> m \<in> set ms \<Longrightarrow> indexed m"
  by (auto simp: spec_status_def bind_eq_Some_conv indexedI split: if_splits)

lemma spec_loc_key_form:
  "spec_loc_key idx spec k = Some ms \<Longrightarrow> m \<in> set ms \<Longrightarrow> indexed m"
  by (auto simp: spec_loc_key_def bind_eq_Some_conv indexedI split: if_splits)

lemma spec_list_key_form:
  "spec_list_key idx spec k = Some ms \<Longrightarrow> m \<in> set ms \<Longrightarrow> indexed m"
  by (auto simp: spec_list_key_def bind_eq_Some_conv indexedI split: if_splits)

lemma check_spec_form:
  "check_spec idx proj = Some ms \<Longrightarrow> m \<in> set ms \<Longrightarrow> indexed m"
  by (auto simp: check_spec_def bind_eq_Some_conv indexedI split: if_splits
        simp del: for_each.simps
        dest: spec_status_form for_each_all [OF _ spec_loc_key_form]
          for_each_all [OF _ spec_list_key_form])

lemma projects_loop_form:
  "projects_loop idx seen ps = Some (ms, final) \<Longrightarrow> m \<in> set ms \<Longrightarrow>
     indexed m \<or> starts ''Duplicate projects[].id: '' m"
proof (induction ps arbitrary: idx seen ms)
  case Nil
  then show ?case by simp
next
  case (Cons proj rest)
  show ?case
  proof (cases "is_dict proj")
    case False
    with Cons.prems(1) obtain ms' where
      "projects_loop (idx + 1) seen rest = Some (ms', final)"
      "ms = (lit ''projects['' @ str_nat idx @ lit ''] must be an object'') # ms'"
      by (auto simp: bind_eq_Some_conv)
    with Cons.prems(2) Cons.IH show ?thesis
      by (auto simp: indexedI)
  next
    case True
    with Cons.prems(1) obtain e1 seen' e2 e3 ms' where
      "check_id idx seen proj = Some (e1, seen')" "check_contained idx proj = Some e2"
      "check_spec idx proj = Some e3" "projects_loop (idx + 1) seen' rest = Some (ms', final)"
      "ms = e1 @ e2 @ e3 @ ms'"
      by (auto simp: bind_eq_Some_conv)
    with Cons.prems(2) Cons.IH show ?thesis
      by (auto dest: check_id_form check_contained_form check_spec_form)
  qed
qed

lemma check_projects_form:
  "check_projects projects = Some ms \<Longrightarrow> m \<in> set ms \<Longrightarrow>
     m = lit ''projects must be an array'' \<or> indexed m
       \<or> starts ''Duplicate projects[].id: '' m"
  by (auto simp: check_projects_def bind_eq_Some_conv split: if_splits
        dest: projects_loop_form)

lemma domomea_item_form:
  "domomea_item x = Some ms \<Longrightarrow> m \<in> set ms \<Longrightarrow> starts ''DoMoMEA proof item #'' m"
  by (cases x) (auto simp: domomea_item_def bind_eq_Some_conv starts_simps split: if_splits)

lemma check_proof_form:
  "check_proof profile = Some ms \<Longrightarrow> m \<in> set ms \<Longrightarrow>
     starts ''proof.'' m \<or> starts ''DoMoMEA proof item #'' m"
  by (auto simp: check_proof_def bind_eq_Some_conv split: if_splits
        dest: for_each_all [OF _ domomea_item_form])

lemma check_bmi_form:
  "check_bmi projects = Some ms \<Longrightarrow> m \<in> set ms \<Longrightarrow>
     m = lit ''projects must include id=bmi'' \<or> starts ''projects[id=bmi]'' m"
  by (auto simp: check_bmi_def bind_eq_Some_conv starts_simps split: if_splits)

lemma validate_forms:
  assumes "is_dict profile"
  obtains projects e1 e2 e3 e4 e5 e6 e7 e8 where
    "py_get profile (lit ''projects'') = Some projects"
    "check_projects projects = Some e3"
    "check_phd_extract profile = Some e6"
    "check_proof profile = Some e7"
    "check_bmi projects = Some e8"
    "validate profile = Some (e1 @ e2 @ e3 @ e4 @ e5 @ e6 @ e7 @ e8)"
    "shaped (e1 @ e2 @ e4 @ e5) e3 e6 e7 e8"
proof -
  from assms obtain projects e1 e2 e3 e4 e5 e6 e7 e8 where b:
    "py_get profile (lit ''projects'') = Some projects"
    "check_required profile = Some e1"
    "check_i18n profile = Some e2"
    "check_projects projects = Some e3"
    "check_contexts profile = Some e4"
    "check_reading profile = Some e5"
    "check_phd_extract profile = Some e6"
    "check_proof profile = Some e7"
    "check_bmi projects = Some e8"
    "validate profile = Some (e1 @ e2 @ e3 @ e4 @ e5 @ e6 @ e7 @ e8)"
    by (rule validate_blocks)
  have "shaped (e1 @ e2 @ e4 @ e5) e3 e6 e7 e8"
    unfolding shaped_def list_all_iff
    using check_required_form [OF b(2)] check_i18n_form [OF b(3)]
      check_contexts_form [OF b(5)] check_reading_form [OF b(6)]
      check_projects_form [OF b(4)] check_phd_extract_form [OF b(7)]
      check_proof_form [OF b(8)] check_bmi_form [OF b(9)]
    by auto
  with b(1,4,7,8,9,10) show thesis by (rule that)
qed

lemma indexed_starts: "indexed m \<Longrightarrow> starts ''projects['' m"
  by (simp add: indexed_def)

lemma shaped_other:
  "shaped eo e3 e6 e7 e8 \<Longrightarrow> m \<in> set eo \<Longrightarrow>
     starts ''Missing '' m \<or> starts ''i18n'' m \<or> starts ''contexts'' m \<or> starts ''reading'' m"
  by (simp add: shaped_def list_all_iff)

lemma shaped_projects:
  "shaped eo e3 e6 e7 e8 \<Longrightarrow> m \<in> set e3 \<Longrightarrow>
     m = lit ''projects must be an array'' \<or> indexed m
       \<or> starts ''Duplicate projects[].id: '' m"
  by (simp add: shaped_def list_all_iff)

lemma shaped_phd:
  "shaped eo e3 e6 e7 e8 \<Longrightarrow> m \<in> set e6 \<Longrightarrow> starts ''Missing '' m \<or> starts ''phd_extract'' m"
  by (simp add: shaped_def list_all_iff)

lemma shaped_proof:
  "shaped eo e3 e6 e7 e8 \<Longrightarrow> m \<in> set e7 \<Longrightarrow>
     starts ''proof.'' m \<or> starts ''DoMoMEA proof item #'' m"
  by (simp add: shaped_def list_all_iff)

lemma shaped_bmi:
  "shaped eo e3 e6 e7 e8 \<Longrightarrow> m \<in> set e8 \<Longrightarrow>
     m = lit ''projects must include id=bmi'' \<or> starts ''projects[id=bmi]'' m"
  by (simp add: shaped_def list_all_iff)

section \<open>The search for the bmi project\<close>

lemma lit_eq_iff [simp]: "lit s = lit t \<longleftrightarrow> s = t"
  by (simp add: lit_def inj_map_eq_map inj_of_char)

lemma lit_neq_append:
  assumes "\<not> prefix t s"
  shows "lit s \<noteq> lit t @ r" and "lit t @ r \<noteq> lit s"
proof -
  have "\<not> prefix (lit t) (lit s)"
    using assms by (simp add: prefix_lit)
  then show "lit s \<noteq> lit t @ r" and "lit t @ r \<noteq> lit s"
    by (metis prefixI)+
qed

lemma starts_self: "m = lit t \<Longrightarrow> starts t m"
  by simp

lemma find_bmi_filter:
  "find_bmi ps = Some (case filter is_bmi ps of [] \<Rightarrow> PNone | p # _ \<Rightarrow> p)"
proof (induction ps)
  case Nil
  show ?case by simp
next
  case (Cons p ps)
  show ?case
  proof (cases "is_dict p")
    case False
    with Cons show ?thesis by (simp add: is_bmi_def)
  next
    case True
    then obtain i where i: "py_get p (lit ''id'') = Some i"
      using total_py_get by blast
    with True Cons show ?thesis by (simp add: is_bmi_def)
  qed
qed

lemma filter_is_bmi_dict: "filter is_bmi ps = p # rest \<Longrightarrow> is_dict p"
  by (metis filter_eq_ConsD is_bmi_def)

lemma check_bmi_required:
  assumes "check_bmi projects = Some e8"
  shows "lit ''projects must include id=bmi'' \<in> set e8 \<longleftrightarrow>
    (\<exists>ps. projects = PList ps \<and> filter is_bmi ps = [])"
proof (cases projects)
  case (PList ps)
  show ?thesis
  proof (cases "filter is_bmi ps")
    case Nil
    with assms PList show ?thesis
      by (auto simp: check_bmi_def find_bmi_filter)
  next
    case (Cons p rest)
    then have "is_dict p" by (rule filter_is_bmi_dict)
    then have "p \<noteq> PNone" by auto
    with assms PList Cons show ?thesis
      by (auto simp: check_bmi_def find_bmi_filter bind_eq_Some_conv lit_neq_append
          split: if_splits)
  qed
qed (use assms in \<open>simp_all add: check_bmi_def\<close>)

section \<open>The required arrays of phd_extract\<close>

lemma phd_key_null:
  "py_get phd key = Some PNone \<Longrightarrow>
     phd_key phd key = Some [lit ''phd_extract missing required key: '' @ key]"
  by (simp add: phd_key_def)

lemma phd_key_cases:
  assumes "phd_key phd key = Some ms"
  shows "ms = [] \<or> ms = [lit ''phd_extract missing required key: '' @ key]
    \<or> (ms = [lit ''phd_extract.'' @ key @ lit '' must be an array of strings'']
        \<and> py_get phd key \<noteq> Some PNone)"
  using assms by (auto simp: phd_key_def bind_eq_Some_conv split: if_splits)

lemma source_msg_not_array_msg:
  assumes "key \<in> set required_arrays"
  shows "lit ''phd_extract.source must be an object''
    \<noteq> lit ''phd_extract.'' @ key @ lit '' must be an array of strings''"
  using assms unfolding required_arrays_def
  by (auto simp: lit_append [symmetric])

lemma check_phd_extract_null_key:
  assumes "check_phd_extract profile = Some e6"
    and "py_get profile (lit ''phd_extract'') = Some phd" and "is_dict phd"
    and "key \<in> set required_arrays" and "py_get phd key = Some PNone"
  shows "lit ''phd_extract missing required key: '' @ key \<in> set e6"
    and "lit ''phd_extract.'' @ key @ lit '' must be an array of strings'' \<notin> set e6"
proof -
  from assms(3) have "phd \<noteq> PNone" by auto
  with assms(1,2,3) obtain source ms where
    ms: "for_each (phd_key phd) required_arrays = Some ms"
    and e6: "e6 = (if source = PNone \<or> \<not> is_dict source
              then [lit ''phd_extract.source must be an object''] else []) @ ms"
    by (auto simp: check_phd_extract_def bind_eq_Some_conv)
  have "lit ''phd_extract missing required key: '' @ key \<in> set ms"
    using ms assms(4) phd_key_null [OF assms(5)] by (rule for_each_memI) simp
  then show "lit ''phd_extract missing required key: '' @ key \<in> set e6"
    by (simp add: e6)
  let ?a = "lit ''phd_extract.'' @ key @ lit '' must be an array of strings''"
  have "?a \<notin> set ms"
  proof
    assume "?a \<in> set ms"
    from for_each_mem [OF ms this] obtain k mx where
      k: "k \<in> set required_arrays" "phd_key phd k = Some mx" "?a \<in> set mx"
      by blast
    from phd_key_cases [OF k(2)] k(3) have "k = key \<and> py_get phd k \<noteq> Some PNone"
      by (auto simp: lit_simps)
    with assms(5) show False by blast
  qed
  then show "?a \<notin> set e6"
    using source_msg_not_array_msg [OF assms(4)] by (auto simp: e6)
qed

section \<open>The ids of the projects\<close>

lemma strip_Nil_iff: "strip s = [] \<longleftrightarrow> list_all is_space s"
proof
  assume "list_all is_space s"
  then have h: "dropWhile is_space s = []"
    by (simp add: dropWhile_eq_Nil_conv list_all_iff)
  show "strip s = []" unfolding strip_def h by simp
next
  assume "strip s = []"
  then have all: "\<forall>x\<in>set (dropWhile is_space s). is_space x"
    by (simp add: strip_def dropWhile_eq_Nil_conv)
  have "dropWhile is_space s = []"
  proof (rule ccontr)
    assume ne: "dropWhile is_space s \<noteq> []"
    then have "\<not> is_space (hd (dropWhile is_space s))" by (rule hd_dropWhile)
    moreover from ne have "hd (dropWhile is_space s) \<in> set (dropWhile is_space s)" by simp
    ultimately show False using all by blast
  qed
  then show "list_all is_space s"
    by (simp add: dropWhile_eq_Nil_conv list_all_iff)
qed

lemma check_id_entry:
  assumes "is_dict proj"
  shows "check_id idx seen proj =
    Some (case entry_id proj of
            None \<Rightarrow>
              ([lit ''projects['' @ str_nat idx @ lit ''].id must be a non-empty string''], seen)
          | Some pid \<Rightarrow>
              if pid \<in> seen then ([lit ''Duplicate projects[].id: '' @ pid], seen)
              else ([], insert pid seen))"
proof -
  from assms obtain d where d: "proj = PDict d" by (cases proj) auto
  show ?thesis
  proof (cases "map_of d (lit ''id'')")
    case None
    then show ?thesis by (simp add: d check_id_def entry_id_def)
  next
    case (Some v)
    then show ?thesis by (cases v) (simp_all add: d check_id_def entry_id_def)
  qed
qed

lemma entry_id_not_blank: "entry_id proj = Some pid \<Longrightarrow> strip pid \<noteq> []"
  by (auto simp: entry_id_def split: pyval.splits option.splits if_splits)

lemma entry_id_blank:
  "py_get proj (lit ''id'') = Some (PStr pid) \<Longrightarrow> list_all is_space pid \<Longrightarrow>
     entry_id proj = None"
  by (cases proj) (auto simp: entry_id_def strip_Nil_iff split: option.splits)

lemma projects_loop_final:
  "projects_loop idx seen ps = Some (ms, final) \<Longrightarrow>
     final = seen \<union> {pid. Some pid \<in> set (map entry_id ps)}"
proof (induction ps arbitrary: idx seen ms)
  case Nil
  then show ?case by simp
next
  case (Cons proj rest)
  show ?case
  proof (cases "is_dict proj")
    case False
    then have "entry_id proj = None" by (cases proj) (auto simp: entry_id_def)
    moreover from False Cons.prems obtain ms' where
      "projects_loop (idx + 1) seen rest = Some (ms', final)"
      by (auto simp: bind_eq_Some_conv)
    ultimately show ?thesis using Cons.IH by auto
  next
    case True
    with Cons.prems obtain e1 seen' ms' where
      "check_id idx seen proj = Some (e1, seen')"
      "projects_loop (idx + 1) seen' rest = Some (ms', final)"
      by (auto simp: bind_eq_Some_conv)
    with Cons.IH [of "idx + 1" seen' ms'] True show ?thesis
      by (auto simp: check_id_entry split: option.splits if_splits)
  qed
qed

lemma projects_loop_tail:
  assumes "projects_loop i0 seen (proj # rest) = Some (ms, final)"
  shows "\<exists>seen' ms'. projects_loop (i0 + 1) seen' rest = Some (ms', final)
    \<and> set ms' \<subseteq> set ms"
proof (cases "is_dict proj")
  case True
  with assms obtain e1 seen' e2 e3 ms' where
    "projects_loop (i0 + 1) seen' rest = Some (ms', final)" "ms = e1 @ e2 @ e3 @ ms'"
    by (auto simp: bind_eq_Some_conv)
  then show ?thesis by auto
next
  case False
  with assms obtain ms' where
    "projects_loop (i0 + 1) seen rest = Some (ms', final)"
    "ms = (lit ''projects['' @ str_nat i0 @ lit ''] must be an object'') # ms'"
    by (auto simp: bind_eq_Some_conv)
  then show ?thesis by auto
qed

lemma projects_loop_blank:
  assumes "projects_loop i0 seen ps = Some (ms, final)" and "i < length ps"
    and "is_dict (ps ! i)" and "entry_id (ps ! i) = None"
  shows "lit ''projects['' @ str_nat (i0 + i) @ lit ''].id must be a non-empty string''
    \<in> set ms"
  using assms
proof (induction ps arbitrary: i0 seen ms i)
  case Nil
  then show ?case by simp
next
  case (Cons proj rest)
  show ?case
  proof (cases i)
    case 0
    with Cons.prems show ?thesis
      by (auto simp: bind_eq_Some_conv check_id_entry)
  next
    case (Suc j)
    from projects_loop_tail [OF Cons.prems(1)] obtain seen' ms' where
      l: "projects_loop (i0 + 1) seen' rest = Some (ms', final)" and "set ms' \<subseteq> set ms"
      by blast
    moreover from Cons.IH [OF l, of j] Cons.prems(2-4) Suc have
      "lit ''projects['' @ str_nat (i0 + 1 + j) @ lit ''].id must be a non-empty string''
        \<in> set ms'"
      by simp
    ultimately show ?thesis using Suc by auto
  qed
qed

section \<open>Duplicate ids\<close>

lemma indexed_not_duplicate: "indexed m \<Longrightarrow> \<not> is_duplicate_msg m"
  by (auto simp: is_duplicate_msg_def dest!: indexed_starts dest: starts_clash)

lemma filter_duplicate_indexed:
  "(\<And>m. m \<in> set ms \<Longrightarrow> indexed m) \<Longrightarrow> filter is_duplicate_msg ms = []"
  by (auto simp: filter_empty_conv indexed_not_duplicate)

lemma duplicate_msgI: "is_duplicate_msg (lit ''Duplicate projects[].id: '' @ p)"
  by (simp add: is_duplicate_msg_def starts_simps)

lemma projects_loop_duplicates:
  "projects_loop i0 seen ps = Some (ms, final) \<Longrightarrow>
     filter is_duplicate_msg ms =
       map (\<lambda>x. lit ''Duplicate projects[].id: '' @ x) (dup_ids seen (map entry_id ps))"
proof (induction ps arbitrary: i0 seen ms)
  case Nil
  then show ?case by simp
next
  case (Cons proj rest)
  show ?case
  proof (cases "is_dict proj")
    case False
    then have none: "entry_id proj = None" by (cases proj) (auto simp: entry_id_def)
    from False Cons.prems obtain ms' where
      l: "projects_loop (i0 + 1) seen rest = Some (ms', final)"
      and ms: "ms = (lit ''projects['' @ str_nat i0 @ lit ''] must be an object'') # ms'"
      by (auto simp: bind_eq_Some_conv)
    have "\<not> is_duplicate_msg (lit ''projects['' @ str_nat i0 @ lit ''] must be an object'')"
      by (intro indexed_not_duplicate indexedI)
    with Cons.IH [OF l] show ?thesis by (simp add: ms none)
  next
    case True
    with Cons.prems obtain e1 seen' e2 e3 ms' where
      c: "check_id i0 seen proj = Some (e1, seen')"
      and e2: "check_contained i0 proj = Some e2"
      and e3: "check_spec i0 proj = Some e3"
      and l: "projects_loop (i0 + 1) seen' rest = Some (ms', final)"
      and ms: "ms = e1 @ e2 @ e3 @ ms'"
      by (auto simp: bind_eq_Some_conv)
    have f2: "filter is_duplicate_msg e2 = []"
      by (rule filter_duplicate_indexed) (rule check_contained_form [OF e2])
    have f3: "filter is_duplicate_msg e3 = []"
      by (rule filter_duplicate_indexed) (rule check_spec_form [OF e3])
    have "filter is_duplicate_msg e1 @ filter is_duplicate_msg ms' =
      map (\<lambda>x. lit ''Duplicate projects[].id: '' @ x) (dup_ids seen (entry_id proj # map entry_id rest))"
    proof (cases "entry_id proj")
      case None
      with c True have "e1 = [lit ''projects['' @ str_nat i0 @ lit ''].id must be a non-empty string'']"
        and "seen' = seen"
        by (simp_all add: check_id_entry)
      with Cons.IH [OF l] None show ?thesis
        by (simp add: indexed_not_duplicate indexedI)
    next
      case (Some pid)
      show ?thesis
      proof (cases "pid \<in> seen")
        case in_seen: True
        with c \<open>is_dict proj\<close> Some have "e1 = [lit ''Duplicate projects[].id: '' @ pid]"
          and "seen' = seen"
          by (simp_all add: check_id_entry)
        with Cons.IH [OF l] Some in_seen show ?thesis
          by (simp add: duplicate_msgI)
      next
        case False
        with c \<open>is_dict proj\<close> Some have "e1 = []" and "seen' = insert pid seen"
          by (simp_all add: check_id_entry)
        with Cons.IH [OF l] Some False show ?thesis
          by simp
      qed
    qed
    then show ?thesis by (simp add: ms f2 f3)
  qed
qed

lemma dup_ids_index:
  "dup_ids seen es =
     map (\<lambda>i. the (es ! i))
       (filter (\<lambda>i. es ! i \<noteq> None \<and> (the (es ! i) \<in> seen \<or> es ! i \<in> set (take i es)))
          [0..<length es])"
proof (induction seen es rule: dup_ids.induct)
  case (1 seen)
  show ?case by simp
next
  case (2 seen es)
  have "filter (\<lambda>i. (None # es) ! i \<noteq> None \<and>
          (the ((None # es) ! i) \<in> seen \<or> (None # es) ! i \<in> set (take i (None # es))))
        [0..<length (None # es)]
      = map Suc (filter (\<lambda>i. es ! i \<noteq> None \<and> (the (es ! i) \<in> seen \<or> es ! i \<in> set (take i es)))
          [0..<length es])"
    by (auto simp: upt_conv_Cons map_Suc_upt [symmetric] filter_map comp_def
          simp del: upt_Suc intro!: filter_cong)
  then show ?case by (simp add: 2 comp_def del: upt_Suc)
next
  case (3 seen x es)
  show ?case
  proof (cases "x \<in> seen")
    case True
    have "filter (\<lambda>i. (Some x # es) ! i \<noteq> None \<and>
            (the ((Some x # es) ! i) \<in> seen \<or> (Some x # es) ! i \<in> set (take i (Some x # es))))
          [0..<length (Some x # es)]
        = 0 # map Suc (filter (\<lambda>i. es ! i \<noteq> None \<and> (the (es ! i) \<in> seen \<or> es ! i \<in> set (take i es)))
            [0..<length es])"
      using True
      by (auto simp: upt_conv_Cons map_Suc_upt [symmetric] filter_map comp_def
            simp del: upt_Suc intro!: filter_cong)
    then show ?thesis using True by (simp add: 3 comp_def del: upt_Suc)
  next
    case False
    have "filter (\<lambda>i. (Some x # es) ! i \<noteq> None \<and>
            (the ((Some x # es) ! i) \<in> seen \<or> (Some x # es) ! i \<in> set (take i (Some x # es))))
          [0..<length (Some x # es)]
        = map Suc (filter (\<lambda>i. es ! i \<noteq> None \<and> (the (es ! i) \<in> insert x seen \<or> es ! i \<in> set (take i es)))
            [0..<length es])"
      using False
      by (auto simp: upt_conv_Cons map_Suc_upt [symmetric] filter_map comp_def
            simp del: upt_Suc intro!: filter_cong)
    then show ?thesis using False by (simp add: 3 comp_def del: upt_Suc)
  qed
qed

section \<open>Printed indices\<close>









section \<open>The bullet counts\<close>









section \<open>A field of the wrong type and its message\<close>






lemma not_list_not_strings: "\<not> is_list v \<Longrightarrow> \<not> is_strings v"
  by (cases v) (simp_all add: is_strings_def)








































section \<open>The root value\<close>

text \<open>
  Claim C1. For every input value that is not an object, \<open>validate\<close> returns the
  one-element list holding "Root JSON value must be an object", and nothing else: no
  other check runs.
\<close>

theorem validate_root_not_object:
  "\<not> is_dict profile \<Longrightarrow> validate profile = Some [lit ''Root JSON value must be an object'']"
  by (simp add: validate_def)

theorem validate_root_not_object_witness:
  "\<not> is_dict (PList [PDict []]) \<and>
   validate (PList [PDict []]) = Some [lit ''Root JSON value must be an object'']"
  using validate_root_not_object [of "PList [PDict []]"] by simp

section \<open>The bmi project\<close>

text \<open>
  Claim C2, as amended. On an object, \<open>validate\<close> reports that the "bmi" project is
  required exactly when "projects" is an array with no object entry whose "id" equals
  "bmi". When "projects" is absent, null or not an array, the message is not produced.
\<close>

theorem bmi_required_iff:
  assumes "is_dict profile"
  shows "\<exists>errors. validate profile = Some errors \<and>
    (lit ''projects must include id=bmi'' \<in> set errors \<longleftrightarrow>
      (\<exists>ps. py_get profile (lit ''projects'') = Some (PList ps) \<and> filter is_bmi ps = []))"
proof -
  let ?m = "lit ''projects must include id=bmi''"
  from assms(1) obtain projects e1 e2 e3 e4 e5 e6 e7 e8 where b:
    "py_get profile (lit ''projects'') = Some projects"
    "check_projects projects = Some e3"
    "check_phd_extract profile = Some e6"
    "check_proof profile = Some e7"
    "check_bmi projects = Some e8"
    "validate profile = Some (e1 @ e2 @ e3 @ e4 @ e5 @ e6 @ e7 @ e8)"
    "shaped (e1 @ e2 @ e4 @ e5) e3 e6 e7 e8"
    by (rule validate_forms)
  have "?m \<notin> set (e1 @ e2 @ e4 @ e5)"
    using shaped_other [OF b(7), of ?m] by auto
  moreover have "?m \<notin> set e3"
    using shaped_projects [OF b(7), of ?m] by (auto simp: indexed_def)
  moreover have "?m \<notin> set e6"
    using shaped_phd [OF b(7), of ?m] by auto
  moreover have "?m \<notin> set e7"
    using shaped_proof [OF b(7), of ?m] by auto
  ultimately have "?m \<in> set (e1 @ e2 @ e3 @ e4 @ e5 @ e6 @ e7 @ e8) \<longleftrightarrow> ?m \<in> set e8"
    by auto
  with b(1,6) check_bmi_required [OF b(5)] show ?thesis by simp
qed

theorem bmi_required_iff_witness:
  "is_dict (PDict [(lit ''projects'', PList [PDict [(lit ''id'', PStr (lit ''thesis''))]])]) \<and>
   (\<exists>errors.
      validate (PDict [(lit ''projects'', PList [PDict [(lit ''id'', PStr (lit ''thesis''))]])])
        = Some errors \<and>
      lit ''projects must include id=bmi'' \<in> set errors)"
  using bmi_required_iff
    [of "PDict [(lit ''projects'', PList [PDict [(lit ''id'', PStr (lit ''thesis''))]])]"]
  by (simp add: is_bmi_def)

text \<open>Claim C2 as stated fails on the empty object: "projects" is absent, no project
  has the id "bmi", and the message is not among the four that \<open>validate\<close> returns.\<close>

theorem bmi_required_counterexample:
  "validate (PDict []) =
     Some [lit ''Missing required top-level key: person'',
           lit ''Missing required top-level key: i18n'',
           lit ''Missing required top-level key: projects'',
           lit ''Missing required top-level key: phd_extract''] \<and>
   lit ''projects must include id=bmi'' \<notin>
     set [lit ''Missing required top-level key: person'',
          lit ''Missing required top-level key: i18n'',
          lit ''Missing required top-level key: projects'',
          lit ''Missing required top-level key: phd_extract'']"
  by (simp add: validate_def check_required_def required_key_def check_i18n_def
      check_projects_def check_contexts_def check_reading_def check_phd_extract_def
      check_proof_def check_bmi_def lit_append [symmetric])

section \<open>Duplicate ids are reported from the second occurrence on\<close>

text \<open>
  Claim C3, as amended. For every projects array, the duplicate-id messages are, in
  order, one for each entry that repeats the id of an earlier entry, where the id of an
  entry counts when the entry is an object and its "id" is a string that is not blank
  (not empty after \<^verbatim>\<open>strip()\<close>); the first occurrence of an id produces none. Two entries
  sharing one such id give exactly one duplicate-id message, at the second entry.
\<close>

theorem duplicate_ids_reported:
  assumes "is_dict profile"
    and "py_get profile (lit ''projects'') = Some (PList ps)"
  shows "\<exists>errors. validate profile = Some errors \<and>
    filter is_duplicate_msg errors =
      map (\<lambda>i. lit ''Duplicate projects[].id: '' @ the (entry_id (ps ! i)))
        (filter (later_occurrence ps) [0..<length ps])"
proof -
  from assms(1) obtain projects e1 e2 e3 e4 e5 e6 e7 e8 where b:
    "py_get profile (lit ''projects'') = Some projects"
    "check_projects projects = Some e3"
    "check_phd_extract profile = Some e6"
    "check_proof profile = Some e7"
    "check_bmi projects = Some e8"
    "validate profile = Some (e1 @ e2 @ e3 @ e4 @ e5 @ e6 @ e7 @ e8)"
    "shaped (e1 @ e2 @ e4 @ e5) e3 e6 e7 e8"
    by (rule validate_forms)
  from b(1) assms(2) have "projects = PList ps" by simp
  with b(2) obtain final where loop: "projects_loop 0 {} ps = Some (e3, final)"
    by (auto simp: check_projects_def bind_eq_Some_conv)
  have "\<not> is_duplicate_msg m" if "m \<in> set (e1 @ e2 @ e4 @ e5)" for m
    using shaped_other [OF b(7) that] by (auto simp: is_duplicate_msg_def dest: starts_clash)
  moreover have "\<not> is_duplicate_msg m" if "m \<in> set e6" for m
    using shaped_phd [OF b(7) that] by (auto simp: is_duplicate_msg_def dest: starts_clash)
  moreover have "\<not> is_duplicate_msg m" if "m \<in> set e7" for m
    using shaped_proof [OF b(7) that] by (auto simp: is_duplicate_msg_def dest: starts_clash)
  moreover have "\<not> is_duplicate_msg m" if "m \<in> set e8" for m
    using shaped_bmi [OF b(7) that]
    by (auto simp: is_duplicate_msg_def dest: starts_clash)
  ultimately have others: "filter is_duplicate_msg e1 = []" "filter is_duplicate_msg e2 = []"
    "filter is_duplicate_msg e4 = []" "filter is_duplicate_msg e5 = []"
    "filter is_duplicate_msg e6 = []" "filter is_duplicate_msg e7 = []"
    "filter is_duplicate_msg e8 = []"
    by (auto simp: filter_empty_conv)
  have idx: "filter (\<lambda>i. map entry_id ps ! i \<noteq> None \<and>
        (the (map entry_id ps ! i) \<in> {} \<or> map entry_id ps ! i \<in> set (take i (map entry_id ps))))
      [0..<length (map entry_id ps)]
    = filter (later_occurrence ps) [0..<length ps]"
  proof (rule filter_cong)
    fix i
    assume "i \<in> set [0..<length ps]"
    then have "map entry_id ps ! i = entry_id (ps ! i)" by simp
    then show "(map entry_id ps ! i \<noteq> None \<and>
        (the (map entry_id ps ! i) \<in> {} \<or> map entry_id ps ! i \<in> set (take i (map entry_id ps))))
      = later_occurrence ps i"
      by (simp add: later_occurrence_def take_map)
  qed simp
  have "filter is_duplicate_msg e3 =
    map (\<lambda>x. lit ''Duplicate projects[].id: '' @ x)
      (map (\<lambda>i. the (map entry_id ps ! i)) (filter (later_occurrence ps) [0..<length ps]))"
    unfolding projects_loop_duplicates [OF loop] dup_ids_index idx ..
  also have "\<dots> = map (\<lambda>i. lit ''Duplicate projects[].id: '' @ the (entry_id (ps ! i)))
        (filter (later_occurrence ps) [0..<length ps])"
    by simp
  finally show ?thesis using b(6) others by simp
qed

theorem duplicate_ids_reported_witness:
  "is_dict (PDict [(lit ''projects'',
      PList [PDict [(lit ''id'', PStr (lit ''bmi''))], PDict [(lit ''id'', PStr (lit ''bmi''))]])]) \<and>
   (\<exists>errors.
      validate (PDict [(lit ''projects'',
        PList [PDict [(lit ''id'', PStr (lit ''bmi''))], PDict [(lit ''id'', PStr (lit ''bmi''))]])])
        = Some errors \<and>
      filter is_duplicate_msg errors = [lit ''Duplicate projects[].id: '' @ lit ''bmi''])"
  using duplicate_ids_reported
    [of "PDict [(lit ''projects'',
           PList [PDict [(lit ''id'', PStr (lit ''bmi''))], PDict [(lit ''id'', PStr (lit ''bmi''))]])]"
        "[PDict [(lit ''id'', PStr (lit ''bmi''))], PDict [(lit ''id'', PStr (lit ''bmi''))]]"]
  by (simp add: later_occurrence_def entry_id_def strip_def is_space_def lit_simps)

text \<open>Claim C3 as stated fails on two entries sharing the non-empty id made of one
  space: each gets the non-empty-string message and there is no duplicate-id message.\<close>

theorem duplicate_ids_counterexample:
  "validate (PDict [(lit ''projects'',
      PList [PDict [(lit ''id'', PStr (lit '' ''))], PDict [(lit ''id'', PStr (lit '' ''))]])])
     = Some [lit ''Missing required top-level key: person'',
             lit ''Missing required top-level key: i18n'',
             lit ''projects[0].id must be a non-empty string'',
             lit ''projects[1].id must be a non-empty string'',
             lit ''Missing required top-level key: phd_extract'',
             lit ''projects must include id=bmi''] \<and>
   filter is_duplicate_msg
     [lit ''Missing required top-level key: person'',
      lit ''Missing required top-level key: i18n'',
      lit ''projects[0].id must be a non-empty string'',
      lit ''projects[1].id must be a non-empty string'',
      lit ''Missing required top-level key: phd_extract'',
      lit ''projects must include id=bmi''] = []"
  by code_simp

section \<open>The bounds on the numbers of bullets\<close>



section \<open>Totality\<close>



section \<open>Localized text\<close>

text \<open>
  Claim C6, as amended. \<open>is_localized\<close> (the source's \<^verbatim>\<open>_is_localized\<close>) returns true
  exactly for an object that has at least one of the keys "en" and "it", whatever the
  values under them, and false for every other value, strings included. It never
  raises. A string is accepted by the two call sites (lines 86 and 97), through their
  separate \<^verbatim>\<open>isinstance(value, str)\<close> test: \<open>spec_loc_key\<close> and \<open>contexts_disclaimer\<close>
  append their message exactly when the key is present and its value is neither
  accepted by \<open>is_localized\<close> nor a string, and append nothing when the value is a
  string.
\<close>

theorem is_localized_iff:
  "is_localized v =
     Some (case v of
             PDict d \<Rightarrow> lit ''en'' \<in> fst ` set d \<or> lit ''it'' \<in> fst ` set d
           | _ \<Rightarrow> False) \<and>
   spec_loc_key idx (PDict spec) loc_key =
     Some (case map_of spec loc_key of
             None \<Rightarrow> []
           | Some w \<Rightarrow>
               if is_localized w = Some True \<or> is_str w then []
               else [lit ''projects['' @ str_nat idx @ lit ''].spec.'' @ loc_key
                       @ lit '' must be string or localized object'']) \<and>
   contexts_disclaimer (PDict contexts) =
     Some (case map_of contexts (lit ''disclaimer'') of
             None \<Rightarrow> []
           | Some w \<Rightarrow>
               if is_localized w = Some True \<or> is_str w then []
               else [lit ''contexts.disclaimer must be string or localized object'']) \<and>
   spec_loc_key idx (PDict ((loc_key, PStr s) # rest)) loc_key = Some [] \<and>
   contexts_disclaimer (PDict ((lit ''disclaimer'', PStr s) # rest)) = Some []"
proof (intro conjI)
  show "is_localized v =
     Some (case v of
             PDict d \<Rightarrow> lit ''en'' \<in> fst ` set d \<or> lit ''it'' \<in> fst ` set d
           | _ \<Rightarrow> False)"
    by (cases v) (auto simp: is_localized_def map_of_eq_None_iff)
next
  show "spec_loc_key idx (PDict spec) loc_key =
     Some (case map_of spec loc_key of
             None \<Rightarrow> []
           | Some w \<Rightarrow>
               if is_localized w = Some True \<or> is_str w then []
               else [lit ''projects['' @ str_nat idx @ lit ''].spec.'' @ loc_key
                       @ lit '' must be string or localized object''])"
  proof (cases "map_of spec loc_key")
    case None
    then show ?thesis by (simp add: spec_loc_key_def)
  next
    case (Some w)
    obtain b where b: "is_localized w = Some b"
      using total_is_localized by blast
    with Some show ?thesis by (cases b) (simp_all add: spec_loc_key_def)
  qed
next
  show "contexts_disclaimer (PDict contexts) =
     Some (case map_of contexts (lit ''disclaimer'') of
             None \<Rightarrow> []
           | Some w \<Rightarrow>
               if is_localized w = Some True \<or> is_str w then []
               else [lit ''contexts.disclaimer must be string or localized object''])"
  proof (cases "map_of contexts (lit ''disclaimer'')")
    case None
    then show ?thesis by (simp add: contexts_disclaimer_def)
  next
    case (Some w)
    obtain b where b: "is_localized w = Some b"
      using total_is_localized by blast
    with Some show ?thesis by (cases b) (simp_all add: contexts_disclaimer_def)
  qed
next
  show "spec_loc_key idx (PDict ((loc_key, PStr s) # rest)) loc_key = Some []"
    by (simp add: spec_loc_key_def is_localized_def)
next
  show "contexts_disclaimer (PDict ((lit ''disclaimer'', PStr s) # rest)) = Some []"
    by (simp add: contexts_disclaimer_def is_localized_def)
qed

text \<open>Claim C6 as stated fails on a string: \<open>is_localized\<close> is false there.\<close>

theorem is_localized_string_counterexample:
  "is_localized (PStr (lit ''ciao'')) = Some False"
  by (simp add: is_localized_def)

section \<open>A byte-order mark at the start of the file\<close>

text \<open>
  Claim C7 says that a file holding a UTF-8 byte-order mark followed by well-formed JSON
  is parsed and validated. \<^verbatim>\<open>main\<close> does otherwise: the mark reaches \<^verbatim>\<open>json.loads\<close> as
  U+FEFF, the parse is reported as failed and \<^verbatim>\<open>main\<close> returns 1 without calling
  \<^verbatim>\<open>validate\<close>, whatever follows the mark.
\<close>

theorem main_bom_rejected:
  "main decoder (Text (0xFEFF # text)) = InvalidJSON \<and>
   exit_code (main decoder (Text (0xFEFF # text))) = Some 1"
  by (simp add: main_def json_loads_def)

section \<open>The proof block\<close>

text \<open>
  Claim C8. When the top-level "proof" field is absent (or null), or is not an object, or
  is an object whose "categories" field is not an array, \<open>validate\<close> returns no message
  of the proof block: neither the missing-evidence-item message nor any message about a
  DoMoMEA proof item.
\<close>

theorem proof_block_skipped:
  assumes "is_dict profile"
    and "py_get profile (lit ''proof'') = Some pf"
    and "pf = PNone \<or> \<not> is_dict pf
      \<or> (\<exists>c. py_get pf (lit ''categories'') = Some c \<and> \<not> is_list c)"
  shows "\<exists>errors. validate profile = Some errors \<and> filter is_proof_msg errors = []"
proof -
  from assms(1) obtain projects e1 e2 e3 e4 e5 e6 e7 e8 where b:
    "py_get profile (lit ''projects'') = Some projects"
    "check_projects projects = Some e3"
    "check_phd_extract profile = Some e6"
    "check_proof profile = Some e7"
    "check_bmi projects = Some e8"
    "validate profile = Some (e1 @ e2 @ e3 @ e4 @ e5 @ e6 @ e7 @ e8)"
    "shaped (e1 @ e2 @ e4 @ e5) e3 e6 e7 e8"
    by (rule validate_forms)
  have "check_proof profile = Some []"
    using assms(2,3) by (auto simp: check_proof_def)
  with b(4) have e7: "e7 = []" by simp
  have "\<not> is_proof_msg m" if "m \<in> set (e1 @ e2 @ e4 @ e5)" for m
    using shaped_other [OF b(7) that] by (auto simp: is_proof_msg_def dest: starts_clash)
  moreover have "\<not> is_proof_msg m" if "m \<in> set e3" for m
    using shaped_projects [OF b(7) that]
    by (auto simp: is_proof_msg_def dest: starts_clash dest!: indexed_starts)
  moreover have "\<not> is_proof_msg m" if "m \<in> set e6" for m
    using shaped_phd [OF b(7) that] by (auto simp: is_proof_msg_def dest: starts_clash)
  moreover have "\<not> is_proof_msg m" if "m \<in> set e8" for m
    using shaped_bmi [OF b(7) that] by (auto simp: is_proof_msg_def dest: starts_clash)
  ultimately have "filter is_proof_msg (e1 @ e2 @ e3 @ e4 @ e5 @ e6 @ e7 @ e8) = []"
    unfolding e7 by (auto simp: filter_empty_conv)
  with b(6) show ?thesis by simp
qed

theorem proof_block_skipped_witness:
  "is_dict (PDict [(lit ''proof'', PDict [(lit ''categories'', PStr (lit ''none''))])]) \<and>
   py_get (PDict [(lit ''proof'', PDict [(lit ''categories'', PStr (lit ''none''))])])
     (lit ''proof'') = Some (PDict [(lit ''categories'', PStr (lit ''none''))]) \<and>
   py_get (PDict [(lit ''categories'', PStr (lit ''none''))]) (lit ''categories'')
     = Some (PStr (lit ''none'')) \<and>
   \<not> is_list (PStr (lit ''none'')) \<and>
   (\<exists>errors.
      validate (PDict [(lit ''proof'', PDict [(lit ''categories'', PStr (lit ''none''))])])
        = Some errors \<and>
      filter is_proof_msg errors = [])"
  using proof_block_skipped
    [of "PDict [(lit ''proof'', PDict [(lit ''categories'', PStr (lit ''none''))])]"
        "PDict [(lit ''categories'', PStr (lit ''none''))]"]
  by simp

section \<open>Blank ids\<close>

text \<open>
  Claim C9. For a project entry whose "id" is a string made only of whitespace
  characters (the empty string included), \<open>validate\<close> reports that the id of that
  entry must be a non-empty string, and the id is not in \<^verbatim>\<open>seen_ids\<close> when the loop
  over the projects ends.
\<close>

theorem blank_id_rejected:
  assumes "is_dict profile"
    and "py_get profile (lit ''projects'') = Some (PList ps)"
    and "idx < length ps"
    and "py_get (ps ! idx) (lit ''id'') = Some (PStr pid)"
    and "list_all is_space pid"
  shows "\<exists>errors ms final. validate profile = Some errors \<and>
    lit ''projects['' @ str_nat idx @ lit ''].id must be a non-empty string'' \<in> set errors \<and>
    projects_loop 0 {} ps = Some (ms, final) \<and> pid \<notin> final"
proof -
  from assms(1) obtain projects e1 e2 e3 e4 e5 e6 e7 e8 where b:
    "py_get profile (lit ''projects'') = Some projects"
    "check_projects projects = Some e3"
    "check_phd_extract profile = Some e6"
    "check_proof profile = Some e7"
    "check_bmi projects = Some e8"
    "validate profile = Some (e1 @ e2 @ e3 @ e4 @ e5 @ e6 @ e7 @ e8)"
    "shaped (e1 @ e2 @ e4 @ e5) e3 e6 e7 e8"
    by (rule validate_forms)
  from b(1) assms(2) have "projects = PList ps" by simp
  with b(2) obtain final where loop: "projects_loop 0 {} ps = Some (e3, final)"
    by (auto simp: check_projects_def bind_eq_Some_conv)
  have dict: "is_dict (ps ! idx)"
    using assms(4) by (cases "ps ! idx") auto
  have none: "entry_id (ps ! idx) = None"
    using assms(4,5) by (rule entry_id_blank)
  from projects_loop_blank [OF loop assms(3) dict none]
  have "lit ''projects['' @ str_nat idx @ lit ''].id must be a non-empty string'' \<in> set e3"
    by simp
  moreover have "pid \<notin> final"
  proof
    assume "pid \<in> final"
    with projects_loop_final [OF loop] obtain p where "entry_id p = Some pid"
      by auto
    then have "strip pid \<noteq> []" by (rule entry_id_not_blank)
    with assms(5) show False by (simp add: strip_Nil_iff)
  qed
  ultimately show ?thesis using b(6) loop by auto
qed

theorem blank_id_rejected_witness:
  "is_dict (PDict [(lit ''projects'', PList [PDict [(lit ''id'', PStr [0x20, 0x09, 0xA0])]])]) \<and>
   py_get (PDict [(lit ''projects'', PList [PDict [(lit ''id'', PStr [0x20, 0x09, 0xA0])]])])
     (lit ''projects'') = Some (PList [PDict [(lit ''id'', PStr [0x20, 0x09, 0xA0])]]) \<and>
   py_get ([PDict [(lit ''id'', PStr [0x20, 0x09, 0xA0])]] ! 0) (lit ''id'')
     = Some (PStr [0x20, 0x09, 0xA0]) \<and>
   list_all is_space [0x20, 0x09, 0xA0] \<and>
   (\<exists>errors ms final.
      validate (PDict [(lit ''projects'', PList [PDict [(lit ''id'', PStr [0x20, 0x09, 0xA0])]])])
        = Some errors \<and>
      lit ''projects['' @ str_nat 0 @ lit ''].id must be a non-empty string'' \<in> set errors \<and>
      projects_loop 0 {} [PDict [(lit ''id'', PStr [0x20, 0x09, 0xA0])]] = Some (ms, final) \<and>
      [0x20, 0x09, 0xA0] \<notin> final)"
  using blank_id_rejected
    [of "PDict [(lit ''projects'', PList [PDict [(lit ''id'', PStr [0x20, 0x09, 0xA0])]])]"
        "[PDict [(lit ''id'', PStr [0x20, 0x09, 0xA0])]]" 0 "[0x20, 0x09, 0xA0]"]
  by (simp add: is_space_def)

section \<open>A null array in phd_extract\<close>

text \<open>
  Claim C10. In an object "phd_extract", a required array key for which \<^verbatim>\<open>.get\<close> gives
  \<^verbatim>\<open>None\<close>, which is the case when the key is present and mapped to null as well as
  when it is absent, is reported by "phd_extract missing required key", and the message
  "must be an array of strings" is not produced for that key.
\<close>

theorem phd_null_key:
  assumes "is_dict profile"
    and "py_get profile (lit ''phd_extract'') = Some phd" and "is_dict phd"
    and "key \<in> set required_arrays" and "py_get phd key = Some PNone"
  shows "\<exists>errors. validate profile = Some errors \<and>
    lit ''phd_extract missing required key: '' @ key \<in> set errors \<and>
    lit ''phd_extract.'' @ key @ lit '' must be an array of strings'' \<notin> set errors"
proof -
  let ?a = "lit ''phd_extract.'' @ key @ lit '' must be an array of strings''"
  from assms(1) obtain projects e1 e2 e3 e4 e5 e6 e7 e8 where b:
    "py_get profile (lit ''projects'') = Some projects"
    "check_projects projects = Some e3"
    "check_phd_extract profile = Some e6"
    "check_proof profile = Some e7"
    "check_bmi projects = Some e8"
    "validate profile = Some (e1 @ e2 @ e3 @ e4 @ e5 @ e6 @ e7 @ e8)"
    "shaped (e1 @ e2 @ e4 @ e5) e3 e6 e7 e8"
    by (rule validate_forms)
  have "?a \<notin> set (e1 @ e2 @ e4 @ e5)"
    using shaped_other [OF b(7), of ?a] by (auto simp: starts_simps)
  moreover have "?a \<notin> set e3"
    using shaped_projects [OF b(7), of ?a]
    by (auto simp: starts_simps lit_neq_append indexed_def)
  moreover have "?a \<notin> set e7"
    using shaped_proof [OF b(7), of ?a] by (auto simp: starts_simps)
  moreover have "?a \<notin> set e8"
    using shaped_bmi [OF b(7), of ?a] by (auto simp: starts_simps lit_neq_append)
  moreover note check_phd_extract_null_key [OF b(3) assms(2-5)]
  ultimately have "lit ''phd_extract missing required key: '' @ key
      \<in> set (e1 @ e2 @ e3 @ e4 @ e5 @ e6 @ e7 @ e8)"
    and "?a \<notin> set (e1 @ e2 @ e3 @ e4 @ e5 @ e6 @ e7 @ e8)"
    by auto
  with b(6) show ?thesis by simp
qed

theorem phd_null_key_witness:
  "is_dict (PDict [(lit ''phd_extract'', PDict [(lit ''innovation'', PNone)])]) \<and>
   py_get (PDict [(lit ''phd_extract'', PDict [(lit ''innovation'', PNone)])])
     (lit ''phd_extract'') = Some (PDict [(lit ''innovation'', PNone)]) \<and>
   lit ''innovation'' \<in> set required_arrays \<and>
   py_getitem (PDict [(lit ''innovation'', PNone)]) (lit ''innovation'') = Some PNone \<and>
   (\<exists>errors.
      validate (PDict [(lit ''phd_extract'', PDict [(lit ''innovation'', PNone)])])
        = Some errors \<and>
      lit ''phd_extract missing required key: '' @ lit ''innovation'' \<in> set errors \<and>
      lit ''phd_extract.'' @ lit ''innovation'' @ lit '' must be an array of strings''
        \<notin> set errors)"
  using phd_null_key
    [of "PDict [(lit ''phd_extract'', PDict [(lit ''innovation'', PNone)])]"
        "PDict [(lit ''innovation'', PNone)]" "lit ''innovation''"]
  by (simp add: required_arrays_def)

end
